theory Spec2Isabelle
  imports Complex_Main
begin

section \<open>The quiz application (app.js) as a state machine\<close>

text \<open>
  The development follows \<^verbatim>\<open>src/app.js\<close>. The global \<^verbatim>\<open>state\<close> object is a record that
  every handler takes and returns; the parts of the browser the handlers touch (screens with the
  class \<^verbatim>\<open>active\<close>, pending timeouts, live interval timers, localStorage) are a second record.
  A JavaScript string is a \<^typ>\<open>string\<close>, one \<^typ>\<open>char\<close> per code unit. A JavaScript number is an
  \<^typ>\<open>int\<close> where the code only produces integers (clock readings, counters) and a \<^typ>\<open>real\<close>
  holding the value of a double where it divides or adds fractions.
\<close>

subsection \<open>Built-ins that depend on the DOM or on Unicode tables\<close>

text \<open>
  \<^verbatim>\<open>decodeHTML\<close> parses its argument as the innerHTML of a textarea; \<^verbatim>\<open>toLowerCase\<close> and
  \<^verbatim>\<open>trim\<close> follow the Unicode tables. They are parameters of the model.
\<close>

record platform =
  decodeHTML :: "string \<Rightarrow> string"
  toLowerCase :: "string \<Rightarrow> string"
  trim :: "string \<Rightarrow> string"

subsection \<open>Doubles\<close>

text \<open>
  The two places where app.js computes with fractions (the score percentage and the Smart Guess
  score) are evaluated in IEEE 754 double precision. \<open>fl x\<close> is the double nearest to the real
  \<open>x\<close>, ties to the even significand, for \<open>x\<close> in the normal range (all values here are
  between \<open>2 ^ -60\<close> and \<open>2 ^ 60\<close>): with \<open>2 ^ e \<le> \<bar>x\<bar> < 2 ^ (e + 1)\<close> the doubles around \<open>x\<close>
  are the multiples of \<open>2 ^ (e - 52)\<close>.
\<close>

fun bitLength :: "nat \<Rightarrow> nat" where
  "bitLength n = (if n = 0 then 0 else Suc (bitLength (n div 2)))"

declare bitLength.simps [simp del]

definition pow2 :: "int \<Rightarrow> real" where
  "pow2 k = (if 0 \<le> k then 2 ^ nat k else 1 / 2 ^ nat (- k))"

definition ilog2 :: "real \<Rightarrow> int" where
  "ilog2 x = (if 1 \<le> x then int (bitLength (nat \<lfloor>x\<rfloor>)) - 1
              else - int (bitLength (nat (\<lceil>1 / x\<rceil> - 1))))"

definition roundHalfEven :: "real \<Rightarrow> int" where
  "roundHalfEven m = (let f = \<lfloor>m\<rfloor>; d = m - of_int f in
     if d < 1 / 2 then f else if 1 / 2 < d then f + 1 else if even f then f else f + 1)"

definition fl :: "real \<Rightarrow> real" where
  "fl x = (if x = 0 then 0 else
     let u = pow2 (ilog2 \<bar>x\<bar> - 52) in sgn x * of_int (roundHalfEven (\<bar>x\<bar> / u)) * u)"

text \<open>\<^verbatim>\<open>Math.round\<close>: the nearest integer, a tie going up.\<close>

definition mathRound :: "real \<Rightarrow> int" where
  "mathRound y = \<lfloor>y + 1 / 2\<rfloor>"

subsection \<open>Strings\<close>

definition lowerAlnum :: "char \<Rightarrow> bool" where
  "lowerAlnum c = (c \<in> set ''abcdefghijklmnopqrstuvwxyz0123456789'')"

definition upperLetters :: string where
  "upperLetters = ''ABCDEFGHIJKLMNOPQRSTUVWXYZ''"

definition lowerLetters :: string where
  "lowerLetters = ''abcdefghijklmnopqrstuvwxyz''"

definition alnum :: "char \<Rightarrow> bool" where
  "alnum c = (lowerAlnum c \<or> c \<in> set upperLetters)"

text \<open>\<^verbatim>\<open>s.replace(/[^a-z0-9 ]/g, ' ')\<close>\<close>

definition blankOthers :: "string \<Rightarrow> string" where
  "blankOthers s = map (\<lambda>c. if lowerAlnum c \<or> c = CHR '' '' then c else CHR '' '') s"

text \<open>\<^verbatim>\<open>s.split(' ')\<close>: the pieces between single spaces, empty pieces included.\<close>

fun splitSpaces :: "string \<Rightarrow> string list" where
  "splitSpaces [] = [[]]"
| "splitSpaces (c # cs) =
     (if c = CHR '' '' then [] # splitSpaces cs
      else (case splitSpaces cs of [] \<Rightarrow> [[c]] | w # ws \<Rightarrow> (c # w) # ws))"

text \<open>\<^verbatim>\<open>c.toUpperCase()\<close> for a character that passed \<^verbatim>\<open>/[a-zA-Z0-9]/\<close>.\<close>

fun upperOf :: "string \<Rightarrow> string \<Rightarrow> char \<Rightarrow> char" where
  "upperOf (l # ls) (u # us) c = (if c = l then u else upperOf ls us c)"
| "upperOf _ _ c = c"

definition toUpperCaseAlnum :: "char \<Rightarrow> char" where
  "toUpperCaseAlnum c = upperOf lowerLetters upperLetters c"

text \<open>\<^verbatim>\<open>n.toString()\<close> for a non-negative integer, and \<^verbatim>\<open>.padStart(2, '0')\<close>.\<close>

definition digit :: "nat \<Rightarrow> char" where
  "digit d = ''0123456789'' ! (d mod 10)"

fun toString :: "nat \<Rightarrow> string" where
  "toString n = (if n < 10 then [digit n] else toString (n div 10) @ [digit n])"

declare toString.simps [simp del]

definition padStart2 :: "string \<Rightarrow> string" where
  "padStart2 s = replicate (2 - length s) (CHR ''0'') @ s"

subsection \<open>Questions and the quiz state\<close>

record question =
  qid :: nat
  question :: string
  correct :: string
  incorrect :: "string list"
  choices :: "string list"
  visited :: bool
  answerIndex :: "nat option"

text \<open>
  A stored attempt, as a JSON tree: what \<^verbatim>\<open>JSON.parse\<close> returns for the text that
  \<^verbatim>\<open>JSON.stringify\<close> wrote. An object keeps its keys in the order they were written.
\<close>

datatype json = JNull | JNum int | JStr string | JArr "json list" | JObj "(string \<times> json) list"

text \<open>
  \<^verbatim>\<open>perQuestionTimeMs\<close> holds numbers; \<open>None\<close> is an entry that is not a number (a hole of the
  array, or NaN). \<^verbatim>\<open>usedClueTypes\<close> is a plain object used as a set: the field holds its own keys.
\<close>

record state =
  email :: string
  questions :: "question list"
  current :: nat
  startedAt :: "int option"
  durationMs :: int
  timerInterval :: "nat option"
  cluesLeft :: int
  usedClues :: "(nat \<times> string) list"
  usedClueTypes :: "string set"
  warnings :: int
  maxWarnings :: int
  perQuestionTimeMs :: "int option list"
  currentStartedAt :: "int option"
  attempts :: "json list"

definition initialState :: state where
  "initialState = \<lparr> email = [], questions = [], current = 0, startedAt = None,
     durationMs = 30 * 60 * 1000, timerInterval = None, cluesLeft = 3, usedClues = [],
     usedClueTypes = {}, warnings = 0, maxWarnings = 4, perQuestionTimeMs = [],
     currentStartedAt = None, attempts = [] \<rparr>"

text \<open>
  \<^verbatim>\<open>decodeHTML(q.choices[i])\<close>: an index outside the array reads \<^verbatim>\<open>undefined\<close>, which the
  innerHTML setter turns into the text "undefined".
\<close>

definition decodedChoice :: "platform \<Rightarrow> question \<Rightarrow> nat \<Rightarrow> string" where
  "decodedChoice P q i =
     (if i < length (choices q) then decodeHTML P (choices q ! i) else decodeHTML P ''undefined'')"

subsection \<open>Clues\<close>

text \<open>
  \<^verbatim>\<open>state.usedClueTypes[type]\<close> on a plain object also finds the properties inherited from
  \<^verbatim>\<open>Object.prototype\<close>, all of which are truthy.
\<close>

definition objectPrototypeKeys :: "string list" where
  "objectPrototypeKeys = [''constructor'', ''__defineGetter__'', ''__defineSetter__'',
     ''hasOwnProperty'', ''__lookupGetter__'', ''__lookupSetter__'', ''isPrototypeOf'',
     ''propertyIsEnumerable'', ''toString'', ''valueOf'', ''__proto__'', ''toLocaleString'']"

definition clueLocked :: "state \<Rightarrow> string \<Rightarrow> bool" where
  "clueLocked s ty = (ty \<in> usedClueTypes s \<or> ty \<in> set objectPrototypeKeys)"

fun findIndex :: "('a \<Rightarrow> bool) \<Rightarrow> 'a list \<Rightarrow> nat option" where
  "findIndex p [] = None"
| "findIndex p (x # xs) = (if p x then Some 0 else map_option Suc (findIndex p xs))"

text \<open>
  The message shown in \<^verbatim>\<open>#ai-output\<close>, by its template: \<open>NoMessage\<close> is the empty string.
\<close>

datatype message =
    NoMessage
  | RemovedTwo
  | StartsWith char
  | NoHint
  | SmartGuess string
  | Keywords "string list"
  | NoKeywords

text \<open>
  The 50/50 branch. \<open>r\<close> is the value of \<^verbatim>\<open>Math.random()\<close>; the product with the number of
  wrong indices is a double. \<open>keepWrong\<close> is \<open>None\<close> when the index is outside \<^verbatim>\<open>wrongIdxs\<close>
  and the read gives \<^verbatim>\<open>undefined\<close>, which equals no index. The branch ends with
  \<^verbatim>\<open>renderQuestion()\<close>, which marks the question visited.
\<close>

definition wrongIdxs :: "platform \<Rightarrow> question \<Rightarrow> nat list" where
  "wrongIdxs P q =
     filter (\<lambda>i. Some i \<noteq> findIndex (\<lambda>c. decodeHTML P c = decodeHTML P (correct q)) (choices q))
       [0..<length (choices q)]"

definition keepWrong :: "platform \<Rightarrow> real \<Rightarrow> question \<Rightarrow> nat option" where
  "keepWrong P r q =
     (let k = nat \<lfloor>fl (r * real (length (wrongIdxs P q)))\<rfloor>
      in if k < length (wrongIdxs P q) then Some (wrongIdxs P q ! k) else None)"

definition fiftyFifty :: "platform \<Rightarrow> real \<Rightarrow> question \<Rightarrow> question" where
  "fiftyFifty P r q =
     (let correctIdx = findIndex (\<lambda>c. decodeHTML P c = decodeHTML P (correct q)) (choices q);
          kept = map snd (filter (\<lambda>(i, c). Some i = correctIdx \<or> Some i = keepWrong P r q)
                   (enumerate 0 (choices q)))
      in q\<lparr> choices := kept, answerIndex := None, visited := True \<rparr>)"

text \<open>The first-letter branch.\<close>

definition firstLetter :: "platform \<Rightarrow> question \<Rightarrow> message" where
  "firstLetter P q =
     (case filter alnum (decodeHTML P (correct q)) of
        [] \<Rightarrow> NoHint
      | c # _ \<Rightarrow> StartsWith (toUpperCaseAlnum c))"

text \<open>
  The Smart Guess branch: every choice is scored by its words of more than three characters,
  2 for a word of the question and 0.2 for any other, added up in doubles; the first choice with
  the highest score wins.
\<close>

definition longWords :: "platform \<Rightarrow> string \<Rightarrow> string list" where
  "longWords P s = filter (\<lambda>w. 3 < length w) (splitSpaces (blankOthers (toLowerCase P (decodeHTML P s))))"

definition guessScore :: "string list \<Rightarrow> string list \<Rightarrow> real" where
  "guessScore qwords w = foldl (\<lambda>acc t. fl (acc + (if t \<in> set qwords then 2 else fl (1 / 5)))) 0 w"

fun bestChoice :: "platform \<Rightarrow> string list \<Rightarrow> string list \<Rightarrow> nat \<Rightarrow> nat \<times> real \<Rightarrow> nat \<times> real" where
  "bestChoice P qwords [] i best = best"
| "bestChoice P qwords (c # cs) i (bestIdx, bestScore) =
     (let score = guessScore qwords (longWords P c)
      in bestChoice P qwords cs (Suc i)
           (if bestScore < score then (i, score) else (bestIdx, bestScore)))"

definition smartGuess :: "platform \<Rightarrow> question \<Rightarrow> message" where
  "smartGuess P q =
     SmartGuess (decodedChoice P q
       (fst (bestChoice P (longWords P (question q)) (choices q) 0 (0, - 1))))"

text \<open>
  The keywords branch. \<open>freq\<close> is the \<^verbatim>\<open>Map\<close>, as the list of its entries in insertion order;
  \<^verbatim>\<open>Array.prototype.sort\<close> is stable, so sorting by descending count is \<open>sort_key\<close> on the
  negated count.
\<close>

definition stop :: "string list" where
  "stop = [''the'', ''and'', ''with'', ''from'', ''that'', ''this'', ''which'', ''when'', ''what'',
     ''were'', ''your'', ''about'', ''into'', ''than'', ''then'', ''have'', ''has'', ''had'', ''who'',
     ''whom'', ''them'', ''they'', ''their'', ''there'', ''here'', ''been'', ''also'', ''only'',
     ''after'', ''before'', ''over'', ''under'', ''much'', ''many'', ''some'', ''most'', ''more'',
     ''less'', ''very'', ''such'', ''like'', ''into'', ''between'', ''among'', ''upon'', ''onto'',
     ''does'', ''did'', ''doing'', ''because'', ''while'', ''where'', ''how'', ''why'', ''for'',
     ''not'', ''but'', ''you'', ''are'', ''was'', ''were'', ''its'', ''it'', ''his'', ''her'', ''she'',
     ''him'', ''he'', ''our'', ''ours'', ''us'']"

definition keywordTokens :: "platform \<Rightarrow> string \<Rightarrow> string list" where
  "keywordTokens P s =
     filter (\<lambda>w. 3 < length w \<and> w \<notin> set stop)
       (splitSpaces (blankOthers (toLowerCase P (decodeHTML P s))))"

fun bump :: "string \<Rightarrow> (string \<times> nat) list \<Rightarrow> (string \<times> nat) list" where
  "bump t [] = [(t, 1)]"
| "bump t ((k, n) # m) = (if k = t then (k, n + 1) # m else (k, n) # bump t m)"

definition freq :: "string list \<Rightarrow> (string \<times> nat) list" where
  "freq tokens = foldl (\<lambda>m t. bump t m) [] tokens"

definition topKeywords :: "string list \<Rightarrow> string list" where
  "topKeywords tokens = map fst (take 5 (sort_key (\<lambda>e. - int (snd e)) (freq tokens)))"

definition keywordsClue :: "platform \<Rightarrow> question \<Rightarrow> message" where
  "keywordsClue P q =
     (let top = topKeywords (keywordTokens P (question q))
      in if top = [] then NoKeywords else Keywords top)"

text \<open>
  \<^verbatim>\<open>applyClue(type)\<close>. The outcome is what the caller can observe: nothing at all (no clues
  left), the alert of a locked clue, a TypeError (a recognised clue with no current question),
  or the message written to \<^verbatim>\<open>#ai-output\<close>.
\<close>

datatype outcome = Ignored | Locked | Threw | Shown message

definition recordClue :: "string \<Rightarrow> state \<Rightarrow> state" where
  "recordClue ty s = s\<lparr> cluesLeft := cluesLeft s - 1,
     usedClues := usedClues s @ [(current s, ty)],
     usedClueTypes := insert ty (usedClueTypes s) \<rparr>"

definition applyClue :: "platform \<Rightarrow> real \<Rightarrow> string \<Rightarrow> state \<Rightarrow> outcome \<times> state" where
  "applyClue P r ty s =
     (if cluesLeft s \<le> 0 then (Ignored, s)
      else if clueLocked s ty then (Locked, s)
      else if ty \<in> set [''5050'', ''first'', ''guess'', ''keywords''] then
        (if current s < length (questions s) then
           (let q = questions s ! current s in
            if ty = ''5050'' then
              (Shown RemovedTwo,
               recordClue ty (s\<lparr> questions := (questions s)[current s := fiftyFifty P r q] \<rparr>))
            else if ty = ''first'' then (Shown (firstLetter P q), recordClue ty s)
            else if ty = ''guess'' then (Shown (smartGuess P q), recordClue ty s)
            else (Shown (keywordsClue P q), recordClue ty s))
         else (Threw, s))
      else (Shown NoMessage, recordClue ty s))"

subsection \<open>Per-question timing and navigation\<close>

text \<open>
  \<^verbatim>\<open>arr[i] += delta\<close>: inside the array the entry grows (NaN stays NaN); outside, the array is
  extended with holes and the new entry is \<^verbatim>\<open>undefined + delta\<close>, NaN.
\<close>

definition addAt :: "int option list \<Rightarrow> nat \<Rightarrow> int \<Rightarrow> int option list" where
  "addAt xs i d =
     (if i < length xs then xs[i := map_option (\<lambda>v. v + d) (xs ! i)]
      else xs @ replicate (i - length xs) None @ [None])"

definition stopTimingCurrent :: "int \<Rightarrow> state \<Rightarrow> state" where
  "stopTimingCurrent now s =
     (case currentStartedAt s of
        None \<Rightarrow> s
      | Some t \<Rightarrow> s\<lparr> perQuestionTimeMs := addAt (perQuestionTimeMs s) (current s) (now - t),
                     currentStartedAt := None \<rparr>)"

text \<open>
  \<^verbatim>\<open>renderQuestion\<close> changes the state in one place, \<^verbatim>\<open>q.visited = true\<close>; the rest is DOM.
  With no current question this assignment throws, and the state stays as it is.
\<close>

definition renderQuestion :: "state \<Rightarrow> state" where
  "renderQuestion s =
     (if current s < length (questions s)
      then s\<lparr> questions := (questions s)[current s := (questions s ! current s)\<lparr> visited := True \<rparr>] \<rparr>
      else s)"

text \<open>
  \<^verbatim>\<open>navigateToQuestion(targetIndex)\<close> reads the clock twice: \<open>t1\<close> inside
  \<^verbatim>\<open>stopTimingCurrent\<close>, \<open>t2\<close> when it reopens the timing.
\<close>

definition navigateToQuestion :: "int \<Rightarrow> int \<Rightarrow> int \<Rightarrow> state \<Rightarrow> state" where
  "navigateToQuestion t1 t2 targetIndex s =
     (if questions s = [] then s
      else if targetIndex < 0 \<or> int (length (questions s)) \<le> targetIndex then s
      else renderQuestion
             ((stopTimingCurrent t1 s)\<lparr> current := nat targetIndex, currentStartedAt := Some t2 \<rparr>))"

subsection \<open>Scoring and the attempt record\<close>

definition isCorrect :: "platform \<Rightarrow> question \<Rightarrow> bool" where
  "isCorrect P q =
     (case answerIndex q of
        None \<Rightarrow> False
      | Some i \<Rightarrow> decodedChoice P q i = decodeHTML P (correct q))"

text \<open>The \<^verbatim>\<open>forEach\<close> loop of \<^verbatim>\<open>submitQuiz\<close> that counts the correct answers.\<close>

definition countCorrect :: "platform \<Rightarrow> question list \<Rightarrow> nat" where
  "countCorrect P qs = foldl (\<lambda>n q. if isCorrect P q then n + 1 else n) 0 qs"

text \<open>
  \<^verbatim>\<open>Math.round((correct / state.questions.length) * 100)\<close>, in doubles. With no questions
  the quotient is 0/0 and the result NaN, written \<open>None\<close>.
\<close>

definition scorePct :: "nat \<Rightarrow> nat \<Rightarrow> int option" where
  "scorePct c n =
     (if n = 0 then None else Some (mathRound (fl (fl (real c / real n) * 100))))"

definition performance :: "nat \<Rightarrow> string" where
  "performance c =
     (if 12 \<le> c then ''Excellent! You nailed it.''
      else if 8 \<le> c then ''Good job! Keep pushing for excellence.''
      else if 5 \<le> c then ''Fair attempt. A bit more practice will help.''
      else ''Needs improvement. Start with the fundamentals.'')"

record item =
  i_question :: string
  i_userAnswer :: "string option"
  i_correct :: string
  i_timeMs :: int

record attempt =
  a_completedAt :: int
  a_reason :: string
  a_correct :: int
  a_total :: int
  a_scorePct :: "int option"
  a_items :: "item list"

text \<open>\<^verbatim>\<open>state.perQuestionTimeMs[idx] || 0\<close>\<close>

definition timeOr0 :: "int option list \<Rightarrow> nat \<Rightarrow> int" where
  "timeOr0 xs i = (if i < length xs then (case xs ! i of None \<Rightarrow> 0 | Some v \<Rightarrow> v) else 0)"

definition buildItem :: "platform \<Rightarrow> state \<Rightarrow> nat \<Rightarrow> question \<Rightarrow> item" where
  "buildItem P s idx q =
     \<lparr> i_question = question q,
       i_userAnswer = map_option (decodedChoice P q) (answerIndex q),
       i_correct = decodeHTML P (correct q),
       i_timeMs = timeOr0 (perQuestionTimeMs s) idx \<rparr>"

text \<open>The object literal \<^verbatim>\<open>attempt\<close> of \<^verbatim>\<open>submitQuiz\<close>; \<open>t\<close> is \<^verbatim>\<open>Date.now()\<close>.\<close>

definition buildAttempt :: "platform \<Rightarrow> int \<Rightarrow> string \<Rightarrow> state \<Rightarrow> attempt" where
  "buildAttempt P t reason s =
     \<lparr> a_completedAt = t,
       a_reason = reason,
       a_correct = int (countCorrect P (questions s)),
       a_total = int (length (questions s)),
       a_scorePct = scorePct (countCorrect P (questions s)) (length (questions s)),
       a_items = map (\<lambda>(idx, q). buildItem P s idx q) (enumerate 0 (questions s)) \<rparr>"

text \<open>
  \<^verbatim>\<open>JSON.stringify\<close> of an attempt, as a tree: the keys are those of the object literal, in
  its order; \<^verbatim>\<open>null\<close> stays null and NaN becomes null.
\<close>

definition itemJSON :: "item \<Rightarrow> json" where
  "itemJSON it = JObj
     [(''question'', JStr (i_question it)),
      (''userAnswer'', (case i_userAnswer it of None \<Rightarrow> JNull | Some u \<Rightarrow> JStr u)),
      (''correct'', JStr (i_correct it)),
      (''timeMs'', JNum (i_timeMs it))]"

definition attemptJSON :: "attempt \<Rightarrow> json" where
  "attemptJSON a = JObj
     [(''completedAt'', JNum (a_completedAt a)),
      (''reason'', JStr (a_reason a)),
      (''correct'', JNum (a_correct a)),
      (''total'', JNum (a_total a)),
      (''scorePct'', (case a_scorePct a of None \<Rightarrow> JNull | Some p \<Rightarrow> JNum p)),
      (''items'', JArr (map itemJSON (a_items a)))]"

text \<open>
  Reading a stored tree back by the property names the code uses (\<^verbatim>\<open>a.completedAt\<close>,
  \<^verbatim>\<open>att.reason\<close>, \<^verbatim>\<open>it.userAnswer\<close>, ...). \<open>None\<close>: some property does not hold a value of
  the kind the attempt had (a number, a string, a string or null, an array).
\<close>

definition objectKeys :: "json \<Rightarrow> string list" where
  "objectKeys j = (case j of JObj kvs \<Rightarrow> map fst kvs | _ \<Rightarrow> [])"

definition prop_of :: "json \<Rightarrow> string \<Rightarrow> json option" where
  "prop_of j k = (case j of JObj kvs \<Rightarrow> map_of kvs k | _ \<Rightarrow> None)"

definition readItem :: "json \<Rightarrow> item option" where
  "readItem j =
     (case (prop_of j ''question'', prop_of j ''userAnswer'', prop_of j ''correct'', prop_of j ''timeMs'') of
        (Some (JStr q), Some JNull, Some (JStr c), Some (JNum t)) \<Rightarrow>
          Some \<lparr> i_question = q, i_userAnswer = None, i_correct = c, i_timeMs = t \<rparr>
      | (Some (JStr q), Some (JStr u), Some (JStr c), Some (JNum t)) \<Rightarrow>
          Some \<lparr> i_question = q, i_userAnswer = Some u, i_correct = c, i_timeMs = t \<rparr>
      | _ \<Rightarrow> None)"

fun readItems :: "json list \<Rightarrow> item list option" where
  "readItems [] = Some []"
| "readItems (j # js) =
     (case (readItem j, readItems js) of
        (Some it, Some its) \<Rightarrow> Some (it # its)
      | _ \<Rightarrow> None)"

definition readAttempt :: "json \<Rightarrow> attempt option" where
  "readAttempt j =
     (case (prop_of j ''completedAt'', prop_of j ''reason'', prop_of j ''correct'',
            prop_of j ''total'', prop_of j ''scorePct'', prop_of j ''items'') of
        (Some (JNum t), Some (JStr r), Some (JNum c), Some (JNum n), Some (JNum p), Some (JArr js)) \<Rightarrow>
          (case readItems js of
             None \<Rightarrow> None
           | Some its \<Rightarrow>
               Some \<lparr> a_completedAt = t, a_reason = r, a_correct = c, a_total = n,
                      a_scorePct = Some p, a_items = its \<rparr>)
      | _ \<Rightarrow> None)"

subsection \<open>The browser around the state\<close>

text \<open>
  \<open>screens\<close>: the ids of the \<^verbatim>\<open>.screen\<close> elements in document order (from index.html).
  \<open>activeScreens\<close>: those that carry the class \<^verbatim>\<open>active\<close>, each once. \<open>fading\<close>: the screens whose
  300 ms timeout of \<^verbatim>\<open>showScreen\<close> is pending, oldest first. \<open>intervals\<close>: the live
  \<^verbatim>\<open>setInterval\<close> timers, each with the \<^verbatim>\<open>endAt\<close> its \<^verbatim>\<open>tick\<close> closure captured.
  \<open>localStorage\<close>: by key, the array that the stored text parses to; the application is the only
  writer of its keys, and login removes them first. \<open>storageFull\<close>: \<^verbatim>\<open>setItem\<close> throws.
\<close>

record browser =
  app :: state
  screens :: "string list"
  activeScreens :: "string list"
  fading :: "string list"
  intervals :: "(nat \<times> int) list"
  nextTimer :: nat
  localStorage :: "string \<Rightarrow> json list option"
  storageFull :: bool
  timerText :: string
  perfText :: string

definition storageKeyFor :: "platform \<Rightarrow> string \<Rightarrow> string" where
  "storageKeyFor P e = ''cf_quiz_'' @ toLowerCase P (trim P e)"

definition showScreen :: "string \<Rightarrow> browser \<Rightarrow> browser" where
  "showScreen i b =
     (if i \<notin> set (screens b) then b
      else b\<lparr> activeScreens := List.insert i (activeScreens b),
              fading := fading b @
                (case find (\<lambda>x. x \<in> set (activeScreens b)) (screens b) of
                   None \<Rightarrow> []
                 | Some cur \<Rightarrow> if cur \<noteq> i then [cur] else []) \<rparr>)"

text \<open>The callback of the oldest pending timeout: it takes \<^verbatim>\<open>active\<close> off its screen.\<close>

definition fadeDone :: "browser \<Rightarrow> browser" where
  "fadeDone b =
     (case fading b of
        [] \<Rightarrow> b
      | c # rest \<Rightarrow> b\<lparr> activeScreens := removeAll c (activeScreens b), fading := rest \<rparr>)"

definition storedAttempts :: "platform \<Rightarrow> browser \<Rightarrow> json list" where
  "storedAttempts P b =
     (case localStorage b (storageKeyFor P (email (app b))) of None \<Rightarrow> [] | Some l \<Rightarrow> l)"

definition loadAttempts :: "platform \<Rightarrow> browser \<Rightarrow> browser" where
  "loadAttempts P b = b\<lparr> app := (app b)\<lparr> attempts := storedAttempts P b \<rparr> \<rparr>"

definition saveAttempt :: "platform \<Rightarrow> attempt \<Rightarrow> browser \<Rightarrow> browser" where
  "saveAttempt P payload b =
     (if storageFull b then b
      else b\<lparr> localStorage := (localStorage b)
              (storageKeyFor P (email (app b)) \<mapsto> storedAttempts P b @ [attemptJSON payload]) \<rparr>)"

text \<open>
  \<^verbatim>\<open>submitQuiz(reason)\<close>, in the order of the source: \<open>beforeSave\<close> closes the timing
  (\<open>t1\<close> is the clock read by \<^verbatim>\<open>stopTimingCurrent\<close>), renders the performance summary from
  the number of correct answers and reloads \<^verbatim>\<open>state.attempts\<close>; \<open>submittedAttempt\<close> is the
  object literal \<^verbatim>\<open>attempt\<close> (\<open>t2\<close> is the clock stored as \<^verbatim>\<open>completedAt\<close>); then the
  attempt is saved and the report screen shown.
\<close>

definition closeTiming :: "int \<Rightarrow> browser \<Rightarrow> browser" where
  "closeTiming t1 b = b\<lparr> app := stopTimingCurrent t1 (app b) \<rparr>"

definition renderSummary :: "platform \<Rightarrow> browser \<Rightarrow> browser" where
  "renderSummary P b = b\<lparr> perfText := performance (countCorrect P (questions (app b))) \<rparr>"

definition beforeSave :: "platform \<Rightarrow> int \<Rightarrow> browser \<Rightarrow> browser" where
  "beforeSave P t1 b = loadAttempts P (renderSummary P (closeTiming t1 b))"

definition submittedAttempt :: "platform \<Rightarrow> int \<Rightarrow> int \<Rightarrow> string \<Rightarrow> browser \<Rightarrow> attempt" where
  "submittedAttempt P t1 t2 reason b = buildAttempt P t2 reason (app (beforeSave P t1 b))"

definition submitQuiz :: "platform \<Rightarrow> int \<Rightarrow> int \<Rightarrow> string \<Rightarrow> browser \<Rightarrow> browser" where
  "submitQuiz P t1 t2 reason b =
     showScreen ''report-screen''
       (saveAttempt P (submittedAttempt P t1 t2 reason b) (beforeSave P t1 b))"

subsection \<open>The countdown\<close>

definition clearInterval :: "nat option \<Rightarrow> browser \<Rightarrow> browser" where
  "clearInterval i b = b\<lparr> intervals := filter (\<lambda>(j, e). Some j \<noteq> i) (intervals b) \<rparr>"

definition timeText :: "int \<Rightarrow> string" where
  "timeText remaining =
     padStart2 (toString (nat (remaining div 60000))) @ '':'' @
     padStart2 (toString (nat ((remaining mod 60000) div 1000)))"

text \<open>
  \<^verbatim>\<open>tick\<close>, the closure of \<^verbatim>\<open>startTimer\<close> over \<open>endAt\<close>: \<open>t0\<close> is its own clock reading,
  \<open>t1\<close> and \<open>t2\<close> those of the \<^verbatim>\<open>submitQuiz\<close> it may call. It writes the remaining time
  to the page and, at zero, clears the interval that \<^verbatim>\<open>state.timerInterval\<close> names and submits.
\<close>

definition remainingAt :: "int \<Rightarrow> int \<Rightarrow> int" where
  "remainingAt endAt t0 = max 0 (endAt - t0)"

definition showTime :: "int \<Rightarrow> browser \<Rightarrow> browser" where
  "showTime remaining b = b\<lparr> timerText := timeText remaining \<rparr>"

definition timeUp :: "platform \<Rightarrow> int \<Rightarrow> int \<Rightarrow> browser \<Rightarrow> browser" where
  "timeUp P t1 t2 b = submitQuiz P t1 t2 ''Time up'' (clearInterval (timerInterval (app b)) b)"

definition tick :: "platform \<Rightarrow> int \<Rightarrow> int \<Rightarrow> int \<Rightarrow> int \<Rightarrow> browser \<Rightarrow> browser" where
  "tick P endAt t0 t1 t2 b =
     (if remainingAt endAt t0 = 0
      then timeUp P t1 t2 (showTime (remainingAt endAt t0) b)
      else showTime (remainingAt endAt t0) b)"

text \<open>
  \<^verbatim>\<open>startTimer\<close>: \<open>endAt\<close> is computed first (a null \<^verbatim>\<open>startedAt\<close> counts as 0), \<^verbatim>\<open>tick\<close>
  runs once, and then \<^verbatim>\<open>setInterval\<close> registers a new timer and stores its number in
  \<^verbatim>\<open>state.timerInterval\<close>.
\<close>

definition endAtOf :: "browser \<Rightarrow> int" where
  "endAtOf b = (case startedAt (app b) of None \<Rightarrow> 0 | Some t \<Rightarrow> t) + durationMs (app b)"

definition setInterval :: "int \<Rightarrow> browser \<Rightarrow> browser" where
  "setInterval endAt b =
     b\<lparr> app := (app b)\<lparr> timerInterval := Some (nextTimer b) \<rparr>,
        intervals := intervals b @ [(nextTimer b, endAt)],
        nextTimer := Suc (nextTimer b) \<rparr>"

definition startTimer :: "platform \<Rightarrow> int \<Rightarrow> int \<Rightarrow> int \<Rightarrow> browser \<Rightarrow> browser" where
  "startTimer P t0 t1 t2 b = setInterval (endAtOf b) (tick P (endAtOf b) t0 t1 t2 b)"

subsection \<open>Warnings\<close>

text \<open>
  \<^verbatim>\<open>addWarning\<close>: the counter goes up first; then, at \<^verbatim>\<open>maxWarnings\<close> or above, the interval
  that \<^verbatim>\<open>state.timerInterval\<close> names is cleared and the quiz submitted.
\<close>

definition countWarning :: "browser \<Rightarrow> browser" where
  "countWarning b = b\<lparr> app := (app b)\<lparr> warnings := warnings (app b) + 1 \<rparr> \<rparr>"

definition afterWarning :: "platform \<Rightarrow> int \<Rightarrow> int \<Rightarrow> browser \<Rightarrow> browser" where
  "afterWarning P t1 t2 b =
     (if maxWarnings (app b) \<le> warnings (app b)
      then submitQuiz P t1 t2 ''Cheating not allowed (max warnings exceeded)''
             (clearInterval (timerInterval (app b)) b)
      else b)"

definition addWarning :: "platform \<Rightarrow> int \<Rightarrow> int \<Rightarrow> browser \<Rightarrow> browser" where
  "addWarning P t1 t2 b = afterWarning P t1 t2 (countWarning b)"

text \<open>The \<^verbatim>\<open>visibilitychange\<close> listener, for an event with \<^verbatim>\<open>document.hidden\<close> true.\<close>

definition onHidden :: "platform \<Rightarrow> int \<Rightarrow> int \<Rightarrow> browser \<Rightarrow> browser" where
  "onHidden P t1 t2 b =
     (if ''quiz-screen'' \<in> set (activeScreens b) then addWarning P t1 t2 b else b)"

definition resetApp :: "browser \<Rightarrow> browser" where
  "resetApp b =
     (clearInterval (timerInterval (app b)) b)
       \<lparr> app := (app b)\<lparr> email := [], questions := [], current := 0, startedAt := None,
            timerInterval := None, cluesLeft := 3, usedClues := [], usedClueTypes := {},
            warnings := 0, currentStartedAt := None \<rparr> \<rparr>"

subsection \<open>Loading the questions\<close>

text \<open>
  \<^verbatim>\<open>shuffle\<close> pairs every element with a fresh \<^verbatim>\<open>Math.random()\<close> and sorts by it (the sort
  is stable); \<open>rnd k\<close> is the number drawn for the element at index \<open>k\<close>.
\<close>

definition shuffle :: "(nat \<Rightarrow> real) \<Rightarrow> 'a list \<Rightarrow> 'a list" where
  "shuffle rnd arr = map fst (sort_key snd (zip arr (map rnd [0..<length arr])))"

text \<open>
  What the request gave: it failed (network error, a status that is not ok, a body that is not
  JSON or has no object), it gave an object whose \<^verbatim>\<open>results\<close> is not an array, or it gave an
  array of items. An item is \<open>Malformed\<close> when reading it throws (it is null, or its
  \<^verbatim>\<open>incorrect_answers\<close> cannot be spread).
\<close>

datatype raw = Raw string string "string list" | Malformed

datatype fetched = Failed | NoResults | Results "raw list"

definition mkQuestion :: "(nat \<Rightarrow> nat \<Rightarrow> real) \<Rightarrow> nat \<Rightarrow> string \<Rightarrow> string \<Rightarrow> string list \<Rightarrow> question" where
  "mkQuestion rnd idx q c i =
     \<lparr> qid = idx, question = q, correct = c, incorrect = i,
       choices = shuffle (rnd idx) (c # i), visited = False, answerIndex = None \<rparr>"

text \<open>
  The fallback set. The typographic quotes around 1984 are outside ASCII; the characters 0x93
  and 0x94 stand for them.
\<close>

definition fallback :: "(string \<times> string \<times> string list) list" where
  "fallback =
     [(''What is the capital of France?'', ''Paris'', [''Lyon'', ''Marseille'', ''Nice'']),
      (''Which planet is known as the Red Planet?'', ''Mars'', [''Venus'', ''Jupiter'', ''Saturn'']),
      (''Who wrote '' @ [CHR 0x93] @ ''1984'' @ [CHR 0x94] @ ''?'', ''George Orwell'',
         [''Aldous Huxley'', ''Ray Bradbury'', ''J.R.R. Tolkien'']),
      (''What is H2O commonly known as?'', ''Water'', [''Hydrogen'', ''Oxygen'', ''Salt'']),
      (''Which language runs in a web browser?'', ''JavaScript'', [''Python'', ''C++'', ''Java''])]"

definition fallbackQuestions :: "(nat \<Rightarrow> nat \<Rightarrow> real) \<Rightarrow> question list" where
  "fallbackQuestions rnd =
     map (\<lambda>(idx, (q, c, i)). mkQuestion rnd idx q c i) (enumerate 0 fallback)"

definition fromItem :: "(nat \<Rightarrow> nat \<Rightarrow> real) \<Rightarrow> nat \<times> raw \<Rightarrow> question option" where
  "fromItem rnd p =
     (case snd p of
        Raw q c i \<Rightarrow> Some (mkQuestion rnd (fst p) q c i)
      | Malformed \<Rightarrow> None)"

text \<open>\<^verbatim>\<open>items.map(...)\<close>: \<open>None\<close> when the callback throws on some item.\<close>

fun allOrNone :: "'a option list \<Rightarrow> 'a list option" where
  "allOrNone [] = Some []"
| "allOrNone (x # xs) =
     (case x of
        None \<Rightarrow> None
      | Some y \<Rightarrow> (case allOrNone xs of None \<Rightarrow> None | Some ys \<Rightarrow> Some (y # ys)))"

text \<open>
  \<^verbatim>\<open>fetchQuestions\<close>: a throw inside the \<^verbatim>\<open>try\<close> leaves \<^verbatim>\<open>state.questions\<close> to the
  \<^verbatim>\<open>catch\<close>, which installs the fallback set; \<^verbatim>\<open>finally\<close> resets the per-question times.
\<close>

definition loadedQuestions :: "(nat \<Rightarrow> nat \<Rightarrow> real) \<Rightarrow> fetched \<Rightarrow> question list" where
  "loadedQuestions rnd f =
     (case f of
        Failed \<Rightarrow> fallbackQuestions rnd
      | NoResults \<Rightarrow> []
      | Results its \<Rightarrow>
          (case allOrNone (map (fromItem rnd) (enumerate 0 its)) of
             None \<Rightarrow> fallbackQuestions rnd
           | Some loaded \<Rightarrow> loaded))"

definition resetTimes :: "state \<Rightarrow> state" where
  "resetTimes s = s\<lparr> perQuestionTimeMs := replicate (length (questions s)) (Some 0) \<rparr>"

definition fetchQuestions :: "(nat \<Rightarrow> nat \<Rightarrow> real) \<Rightarrow> fetched \<Rightarrow> state \<Rightarrow> state" where
  "fetchQuestions rnd f s = resetTimes (s\<lparr> questions := loadedQuestions rnd f \<rparr>)"

subsection \<open>The handlers wired to the page\<close>

text \<open>
  One constructor per listener of \<^verbatim>\<open>wire\<close> that the claims need, with the clock readings and
  random numbers the handler will see. A button can be pressed while its screen is shown, that
  is, carries \<^verbatim>\<open>active\<close>. Inside the quiz screen the page shows the choice buttons and shows
  or hides the bottom submit button as \<^verbatim>\<open>doUpdate\<close> left them, which after an animated render
  runs half a second late; what it left is not kept here. So a press of the submit button is
  admitted on any question, and a press of a choice button for any question and position
  (\<open>Select k i\<close>, see \<open>selectAnswer\<close>).
\<close>

datatype event =
    NewTest fetched "nat \<Rightarrow> nat \<Rightarrow> real" "nat \<Rightarrow> int"
  | Next int int
  | Prev int int
  | Jump nat int int
  | Select nat nat
  | Clue string real
  | BottomSubmit int int
  | Hidden int int
  | Fire nat int int int
  | FadeDone
  | BackDashboard
  | Retake

text \<open>
  The listener of the "new test" button: after \<^verbatim>\<open>await fetchQuestions()\<close> it gives up when
  nothing was loaded; otherwise it stamps \<^verbatim>\<open>startedAt\<close>, shows the quiz screen, starts the
  timer and opens question 0. \<open>clk k\<close> is the \<open>k\<close>-th clock reading of the handler.
\<close>

definition stampStart :: "int \<Rightarrow> browser \<Rightarrow> browser" where
  "stampStart t b = b\<lparr> app := (app b)\<lparr> startedAt := Some t \<rparr> \<rparr>"

definition openFirst :: "int \<Rightarrow> int \<Rightarrow> browser \<Rightarrow> browser" where
  "openFirst t1 t2 b = b\<lparr> app := navigateToQuestion t1 t2 0 (app b) \<rparr>"

definition startQuiz :: "platform \<Rightarrow> (nat \<Rightarrow> int) \<Rightarrow> browser \<Rightarrow> browser" where
  "startQuiz P clk b =
     (if questions (app b) = [] then b
      else openFirst (clk 4) (clk 5)
             (startTimer P (clk 1) (clk 2) (clk 3)
                (showScreen ''quiz-screen'' (stampStart (clk 0) b))))"

definition newTest :: "platform \<Rightarrow> fetched \<Rightarrow> (nat \<Rightarrow> nat \<Rightarrow> real) \<Rightarrow> (nat \<Rightarrow> int) \<Rightarrow> browser \<Rightarrow> browser" where
  "newTest P f rnd clk b = startQuiz P clk (b\<lparr> app := fetchQuestions rnd f (app b) \<rparr>)"

text \<open>
  The click listener of a choice button, made by \<^verbatim>\<open>doUpdate\<close> inside \<^verbatim>\<open>renderQuestion\<close>:
  it closes over the question object \<^verbatim>\<open>q\<close> the buttons were made for and over the position
  \<^verbatim>\<open>i\<close> of its button, sets \<^verbatim>\<open>q.answerIndex = i\<close> and calls \<^verbatim>\<open>renderQuestion(false)\<close>,
  which marks the question that is current now. After an animated render the buttons are made
  anew only half a second later; until then the page shows those of the render before. So
  \<^verbatim>\<open>q\<close> need not be the current question, and \<^verbatim>\<open>i\<close> need not be an index of the choices
  \<^verbatim>\<open>q\<close> has now (50/50 may have shortened them). \<open>k\<close> is the place of \<^verbatim>\<open>q\<close> in
  \<^verbatim>\<open>state.questions\<close>; a \<open>k\<close> outside the list stands for an object of an earlier load, which
  the state no longer reaches. With no current question \<^verbatim>\<open>renderQuestion\<close> throws before it
  changes anything.
\<close>

definition selectAnswer :: "nat \<Rightarrow> nat \<Rightarrow> state \<Rightarrow> state" where
  "selectAnswer k i s =
     renderQuestion
       (if k < length (questions s)
        then s\<lparr> questions := (questions s)[k := (questions s ! k)\<lparr> answerIndex := Some i \<rparr>] \<rparr>
        else s)"

definition shown :: "string \<Rightarrow> browser \<Rightarrow> bool" where
  "shown i b = (i \<in> set (activeScreens b))"

fun step :: "platform \<Rightarrow> event \<Rightarrow> browser \<Rightarrow> browser" where
  "step P (NewTest f rnd clk) b =
     (if shown ''dashboard-screen'' b then newTest P f rnd clk b else b)"
| "step P (Next t1 t2) b =
     (if shown ''quiz-screen'' b \<and> int (current (app b)) < int (length (questions (app b))) - 1
      then b\<lparr> app := navigateToQuestion t1 t2 (int (current (app b)) + 1) (app b) \<rparr> else b)"
| "step P (Prev t1 t2) b =
     (if shown ''quiz-screen'' b \<and> 0 < current (app b)
      then b\<lparr> app := navigateToQuestion t1 t2 (int (current (app b)) - 1) (app b) \<rparr> else b)"
| "step P (Jump i t1 t2) b =
     (if shown ''quiz-screen'' b \<and> i < length (questions (app b))
      then b\<lparr> app := navigateToQuestion t1 t2 (int i) (app b) \<rparr> else b)"
| "step P (Select k i) b =
     (if shown ''quiz-screen'' b then b\<lparr> app := selectAnswer k i (app b) \<rparr> else b)"
| "step P (Clue ty r) b =
     (if shown ''quiz-screen'' b \<and> ty \<in> set [''5050'', ''first'', ''guess'', ''keywords'']
      then b\<lparr> app := snd (applyClue P r ty (app b)) \<rparr> else b)"
| "step P (BottomSubmit t1 t2) b =
     (if shown ''quiz-screen'' b then submitQuiz P t1 t2 ''Manual submit'' b else b)"
| "step P (Hidden t1 t2) b = onHidden P t1 t2 b"
| "step P (Fire i t0 t1 t2) b =
     (case map_of (intervals b) i of
        None \<Rightarrow> b
      | Some endAt \<Rightarrow> tick P endAt t0 t1 t2 b)"
| "step P FadeDone b = fadeDone b"
| "step P BackDashboard b =
     (if shown ''report-screen'' b then showScreen ''dashboard-screen'' b else b)"
| "step P Retake b =
     (if shown ''report-screen'' b then showScreen ''dashboard-screen'' (resetApp b) else b)"

definition run :: "platform \<Rightarrow> event list \<Rightarrow> browser \<Rightarrow> browser" where
  "run P es b = foldl (\<lambda>b e. step P e b) b es"

text \<open>
  The page after a login as \<open>e\<close>, once the start screen has faded out. The login has removed
  the attempts stored for \<open>e\<close>; nothing else is in storage. The screens are taken in the order
  start, dashboard, quiz, report.
\<close>

definition loggedIn :: "string \<Rightarrow> browser" where
  "loggedIn e =
     \<lparr> app = initialState\<lparr> email := e \<rparr>,
       screens = [''start-screen'', ''dashboard-screen'', ''quiz-screen'', ''report-screen''],
       activeScreens = [''dashboard-screen''],
       fading = [],
       intervals = [],
       nextTimer = 1,
       localStorage = Map.empty,
       storageFull = False,
       timerText = [],
       perfText = [] \<rparr>"

subsection \<open>Fixtures for the concrete runs\<close>

text \<open>
  A platform for plain ASCII text: nothing to decode, nothing to trim, lower case by the
  alphabet. And the first fallback question, opened at time 1000 with its first choice selected.
\<close>

definition asciiLower :: "string \<Rightarrow> string" where
  "asciiLower s = map (upperOf upperLetters lowerLetters) s"

definition plainText :: platform where
  "plainText = \<lparr> decodeHTML = (\<lambda>s. s), toLowerCase = asciiLower, trim = (\<lambda>s. s) \<rparr>"

definition parisQuestion :: question where
  "parisQuestion = \<lparr> qid = 0, question = ''What is the capital of France?'', correct = ''Paris'',
     incorrect = [''Lyon'', ''Marseille'', ''Nice''],
     choices = [''Paris'', ''Lyon'', ''Marseille'', ''Nice''], visited = True,
     answerIndex = Some 0 \<rparr>"

definition parisState :: state where
  "parisState = initialState\<lparr> questions := [parisQuestion], perQuestionTimeMs := [Some 0],
     currentStartedAt := Some 1000 \<rparr>"

text \<open>A series of \<^verbatim>\<open>applyClue\<close> calls, each with its type and its random number.\<close>

definition clueRun :: "platform \<Rightarrow> (string \<times> real) list \<Rightarrow> state \<Rightarrow> state" where
  "clueRun P calls s = foldl (\<lambda>s c. snd (applyClue P (snd c) (fst c) s)) s calls"

text \<open>
  The time accounted to the current question at clock reading \<open>t\<close>: what is recorded for it
  (read as the report reads it, \<^verbatim>\<open>perQuestionTimeMs[idx] || 0\<close>) plus the interval that is
  open since \<^verbatim>\<open>currentStartedAt\<close>.
\<close>

definition openInterval :: "state \<Rightarrow> int \<Rightarrow> int" where
  "openInterval s t = (case currentStartedAt s of None \<Rightarrow> 0 | Some t0 \<Rightarrow> t - t0)"

definition accounted :: "state \<Rightarrow> int \<Rightarrow> int" where
  "accounted s t = timeOr0 (perQuestionTimeMs s) (current s) + openInterval s t"

text \<open>
  The tokens the specification asks for, in its own words: the prompt, entity-decoded and put in
  lower case, is read as its lower-case alphanumeric words, the maximal runs of lower-case
  letters and digits, in their order and each as often as it occurs; kept are the words of more
  than three characters that are not in the stopword set.
\<close>

definition wordChar :: "char \<Rightarrow> bool" where
  "wordChar c = (c \<in> set ''abcdefghijklmnopqrstuvwxyz'' \<or> c \<in> set ''0123456789'')"

function alnumWords :: "string \<Rightarrow> string list" where
  "alnumWords [] = []"
| "alnumWords (c # cs) =
     (if wordChar c then (c # takeWhile wordChar cs) # alnumWords (dropWhile wordChar cs)
      else alnumWords cs)"
  by pat_completeness auto
termination
  by (relation "measure length") (auto simp: length_dropWhile_le less_Suc_eq_le)

definition specTokens :: "platform \<Rightarrow> string \<Rightarrow> string list" where
  "specTokens P prompt =
     filter (\<lambda>w. 3 < length w \<and> w \<notin> set stop) (alnumWords (toLowerCase P (decodeHTML P prompt)))"

definition promptTokens :: "platform \<Rightarrow> state \<Rightarrow> string list" where
  "promptTokens P s = specTokens P (question (questions s ! current s))"

text \<open>
  The ranking the specification asks of the keywords, in its own words: a token ranks before
  another when it is more frequent among the tokens, or as frequent and first met earlier.
  \<open>mostFrequent tokens best\<close>: the list \<open>best\<close> holds the up to five most frequent distinct
  tokens, in that ranking.
\<close>

definition firstPos :: "string list \<Rightarrow> string \<Rightarrow> nat" where
  "firstPos tokens w = length (takeWhile (\<lambda>x. x \<noteq> w) tokens)"

definition ranksBefore :: "string list \<Rightarrow> string \<Rightarrow> string \<Rightarrow> bool" where
  "ranksBefore tokens v w =
     (count_list tokens w < count_list tokens v
      \<or> (count_list tokens v = count_list tokens w \<and> firstPos tokens v < firstPos tokens w))"

definition mostFrequent :: "string list \<Rightarrow> string list \<Rightarrow> bool" where
  "mostFrequent tokens best =
     (distinct best \<and> set best \<subseteq> set tokens \<and> length best = min 5 (card (set tokens))
      \<and> sorted_wrt (ranksBefore tokens) best
      \<and> (\<forall>v\<in>set best. \<forall>w\<in>set tokens - set best. ranksBefore tokens v w))"

text \<open>The tokens of the prompt of the current question, as the keywords branch computes them.\<close>

definition currentTokens :: "platform \<Rightarrow> state \<Rightarrow> string list" where
  "currentTokens P s = keywordTokens P (question (questions s ! current s))"

text \<open>
  A question whose prompt has punctuation, stopwords, short words, a word that occurs four times
  and seven distinct tokens.
\<close>

definition oceanQuestion :: question where
  "oceanQuestion = \<lparr> qid = 0,
     question = ''Between Europe & America lies which ocean: the Atlantic Ocean, the Pacific Ocean or the Indian Ocean?'',
     correct = ''Atlantic Ocean'',
     incorrect = [''Pacific Ocean'', ''Indian Ocean'', ''Arctic Ocean''],
     choices = [''Atlantic Ocean'', ''Pacific Ocean'', ''Indian Ocean'', ''Arctic Ocean''],
     visited = True, answerIndex = None \<rparr>"

definition oceanState :: state where
  "oceanState = initialState\<lparr> questions := [oceanQuestion], perQuestionTimeMs := [Some 0],
     currentStartedAt := Some 1000 \<rparr>"

text \<open>
  The score the specification asks for, in its own words: \<open>round(100 * correctCount /
  totalCount)\<close>, on exact numbers, a tie going up.
\<close>

definition exactPct :: "nat \<Rightarrow> nat \<Rightarrow> int" where
  "exactPct c n = mathRound (100 * real c / real n)"

text \<open>
  \<open>allUpTo p k\<close>: \<open>p\<close> holds for 0, ..., \<open>k\<close>. \<open>rowOk n\<close>: for a quiz of \<open>n\<close> questions the
  double computation of the code gives the exact score, whatever the number of correct
  answers.
\<close>

fun allUpTo :: "(nat \<Rightarrow> bool) \<Rightarrow> nat \<Rightarrow> bool" where
  "allUpTo p 0 = p 0"
| "allUpTo p (Suc k) = (p (Suc k) \<and> allUpTo p k)"

definition agrees :: "nat \<Rightarrow> nat \<Rightarrow> bool" where
  "agrees n c = (scorePct c n = Some (exactPct c n))"

definition rowOk :: "nat \<Rightarrow> bool" where
  "rowOk n = (n = 0 \<or> allUpTo (agrees n) n)"

text \<open>
  The page during a quiz on the first fallback question alone, and a quiz of \<open>right\<close> questions
  answered correctly followed by \<open>wrong\<close> questions answered wrongly.
\<close>

definition parisBrowser :: browser where
  "parisBrowser = (loggedIn ''a@b.c'')
     \<lparr> app := parisState\<lparr> email := ''a@b.c'' \<rparr>, activeScreens := [''quiz-screen''] \<rparr>"

definition mixedBrowser :: "nat \<Rightarrow> nat \<Rightarrow> browser" where
  "mixedBrowser right wrong = (loggedIn ''a@b.c'')
     \<lparr> app := initialState
         \<lparr> email := ''a@b.c'',
           questions := replicate right parisQuestion
             @ replicate wrong (parisQuestion\<lparr> answerIndex := Some 2 \<rparr>),
           perQuestionTimeMs := replicate (right + wrong) (Some 0) \<rparr>,
       activeScreens := [''quiz-screen''] \<rparr>"

text \<open>The field names of an Attempt record and of its items in the specification (section 3).\<close>

definition specAttemptFields :: "string list" where
  "specAttemptFields = [''completedAt'', ''submissionReason'', ''correctCount'', ''totalCount'',
     ''scorePercent'', ''items'']"

definition specItemFields :: "string list" where
  "specItemFields = [''promptText'', ''userAnswer'', ''correctAnswer'', ''timeSpentMs'']"

text \<open>
  Runs of the page. In all of them the request for questions fails, so the five fallback
  questions are loaded, and every random number is 0, which leaves the choices in their
  order. \<open>reasons\<close> lists the reasons of the attempts in storage, oldest first.
\<close>

definition offline :: "int \<Rightarrow> event" where
  "offline t = NewTest Failed (\<lambda>i k. 0) (\<lambda>k. t)"

definition reasons :: "platform \<Rightarrow> browser \<Rightarrow> json option list" where
  "reasons P b = map (\<lambda>j. prop_of j ''reason'') (storedAttempts P b)"

text \<open>
  Every change of screen is followed by \<open>FadeDone\<close>: more than 300 ms pass before the next
  event, except where a run says otherwise.

  Four warnings end the first quiz at time 5000; the user goes back to the dashboard, starts a
  new quiz at time 20000 and leaves the tab once, at 21000.
\<close>

definition secondQuizRun :: "event list" where
  "secondQuizRun =
     [offline 1000, FadeDone, Hidden 2000 2000, Hidden 3000 3000, Hidden 4000 4000,
      Hidden 5000 5000, FadeDone, BackDashboard, FadeDone, offline 20000, FadeDone,
      Hidden 21000 21000]"

text \<open>
  Four warnings end the quiz at time 5000, and the tab is left again at 5100, before the
  300 ms timeout of \<^verbatim>\<open>showScreen\<close> has taken \<^verbatim>\<open>active\<close> off the quiz screen.
\<close>

definition fadeWindowRun :: "event list" where
  "fadeWindowRun =
     [offline 1000, FadeDone, Hidden 2000 2000, Hidden 3000 3000, Hidden 4000 4000,
      Hidden 5000 5000, Hidden 5100 5100]"

text \<open>
  The first quiz starts at time 1000 and is submitted by hand on its last question at 60000;
  the user goes back to the dashboard and starts a second quiz at 100000. The interval timer of
  the first quiz (number 1) is still running: it fires at 1801000, when the first countdown
  is over, and again a second later.
\<close>

definition staleTimerRun :: "event list" where
  "staleTimerRun =
     [offline 1000, FadeDone, Next 2000 2000, Next 3000 3000, Next 4000 4000, Next 5000 5000,
      BottomSubmit 60000 60000, FadeDone, BackDashboard, FadeDone, offline 100000, FadeDone,
      Fire 1 1801000 1801000 1801000, Fire 1 1802000 1802000 1802000]"

section \<open>Properties\<close>

subsection \<open>The model of doubles\<close>

text \<open>
  Values that every IEEE 754 implementation computes: 0.2 is \<open>3602879701896397 / 2 ^ 54\<close>,
  0.1 + 0.2 is 0.30000000000000004, 0.575 * 100 is 57.49999999999999, and 1/3 is
  \<open>6004799503160661 / 2 ^ 54\<close>. Then the two facts that make \<open>fl\<close> the rounding to the nearest
  double: \<open>ilog2\<close> finds the binade of its argument, and \<open>fl x\<close> is within half a unit in the
  last place of \<open>x\<close>.
\<close>

lemmas fl_eval = fl_def ilog2_def bitLength.simps pow2_def roundHalfEven_def

lemma fl_known:
  "fl (1 / 5) = 3602879701896397 / 18014398509481984"
  "fl (fl (1 / 10) + fl (1 / 5)) = 5404319552844596 / 18014398509481984"
  "fl (fl (23 / 40) * 100) = 8092405580431359 / 140737488355328"
  "fl (1 / 3) = 6004799503160661 / 18014398509481984"
  by (simp_all add: fl_eval)

lemma bitLength_bounds: "0 < n \<Longrightarrow> 2 ^ (bitLength n - 1) \<le> n \<and> n < 2 ^ bitLength n"
proof (induction n rule: bitLength.induct)
  case (1 n)
  show ?case
  proof (cases "n div 2 = 0")
    case True
    with 1 have "n = 1" by (cases n) auto
    then show ?thesis by (simp add: bitLength.simps)
  next
    case False
    then have IH: "2 ^ (bitLength (n div 2) - 1) \<le> n div 2 \<and> n div 2 < 2 ^ bitLength (n div 2)"
      using 1 by simp
    have pos: "0 < bitLength (n div 2)"
      using False by (subst bitLength.simps) simp
    have bl: "bitLength n = Suc (bitLength (n div 2))"
      using 1(2) by (subst bitLength.simps) simp
    have "2 ^ (bitLength n - 1) = 2 * 2 ^ (bitLength (n div 2) - 1)"
      using pos bl by (cases "bitLength (n div 2)") simp_all
    also have "\<dots> \<le> 2 * (n div 2)" using IH by simp
    also have "\<dots> \<le> n" by simp
    finally have lo: "2 ^ (bitLength n - 1) \<le> n" .
    have "n < 2 * (n div 2) + 2" by presburger
    also have "\<dots> \<le> 2 * 2 ^ bitLength (n div 2)" using IH by simp
    finally have "n < 2 ^ bitLength n" using bl by simp
    with lo show ?thesis by simp
  qed
qed


lemma pow2_pos: "0 < pow2 k"
  by (simp add: pow2_def)

lemma pow2_Suc: "pow2 (k + 1) = 2 * pow2 k"
proof (cases "0 \<le> k")
  case True
  then show ?thesis by (simp add: pow2_def nat_add_distrib)
next
  case False
  then have "nat (- k) = Suc (nat (- (k + 1)))" by simp
  then show ?thesis using False by (simp add: pow2_def)
qed

lemma pow2_neg: "pow2 (- int j) = 1 / 2 ^ j"
proof (cases j)
  case 0
  then show ?thesis by (simp add: pow2_def)
next
  case (Suc i)
  have "nat (int (Suc i)) = Suc i" by (rule nat_int)
  then show ?thesis using Suc by (simp add: pow2_def del: of_nat_Suc)
qed

lemma ilog2_bounds:
  assumes "0 < x"
  shows "pow2 (ilog2 x) \<le> x \<and> x < pow2 (ilog2 x + 1)"
proof (cases "1 \<le> x")
  case True
  let ?n = "nat \<lfloor>x\<rfloor>"
  have n: "0 < ?n" using True by simp
  have fl: "real ?n \<le> x" "x < real ?n + 1"
    using True by simp_all
  from bitLength_bounds [OF n]
  have b1: "2 ^ (bitLength ?n - 1) \<le> ?n" and b2: "?n < 2 ^ bitLength ?n" by blast+
  have b: "2 ^ (bitLength ?n - 1) \<le> ?n" "?n + 1 \<le> 2 ^ bitLength ?n"
    using b1 b2 by linarith+
  have pos: "0 < bitLength ?n" using n by (subst bitLength.simps) simp
  have e: "ilog2 x = int (bitLength ?n) - 1" using True by (simp add: ilog2_def)
  have "pow2 (ilog2 x) = 2 ^ (bitLength ?n - 1)"
    using pos by (simp add: e pow2_def nat_diff_distrib')
  also have "\<dots> \<le> real ?n" using b(1) by (metis of_nat_le_iff of_nat_numeral of_nat_power)
  finally have lo: "pow2 (ilog2 x) \<le> x" using fl(1) by simp
  have "x < real (?n + 1)" using fl(2) by simp
  also have "\<dots> \<le> 2 ^ bitLength ?n"
    using b(2) by (metis of_nat_le_iff of_nat_numeral of_nat_power)
  also have "\<dots> = pow2 (ilog2 x + 1)" by (simp add: e pow2_def)
  finally show ?thesis using lo by simp
next
  case False
  let ?m = "nat (\<lceil>1 / x\<rceil> - 1)"
  have inv: "1 < 1 / x" using False assms by simp
  then have c2: "2 \<le> \<lceil>1 / x\<rceil>" by linarith
  then have m: "0 < ?m" by linarith
  have mi: "int ?m = \<lceil>1 / x\<rceil> - 1" using c2 by linarith
  have "real ?m = real_of_int (int ?m)" by (rule of_int_of_nat_eq [symmetric])
  then have mc: "real ?m = of_int \<lceil>1 / x\<rceil> - 1" by (simp only: mi of_int_diff of_int_1)
  from bitLength_bounds [OF m]
  have b1: "2 ^ (bitLength ?m - 1) \<le> ?m" and b2: "?m < 2 ^ bitLength ?m" by blast+
  have b: "2 ^ (bitLength ?m - 1) \<le> ?m" "?m + 1 \<le> 2 ^ bitLength ?m"
    using b1 b2 by linarith+
  have pos: "0 < bitLength ?m" using m by (subst bitLength.simps) simp
  have e: "ilog2 x = - int (bitLength ?m)" using False by (simp add: ilog2_def)
  have "1 / x \<le> of_int \<lceil>1 / x\<rceil>" by simp
  also have "\<dots> = real (?m + 1)" using mc by simp
  also have "\<dots> \<le> 2 ^ bitLength ?m"
    using b(2) by (metis of_nat_le_iff of_nat_numeral of_nat_power)
  finally have "1 / x \<le> 2 ^ bitLength ?m" .
  then have "1 / 2 ^ bitLength ?m \<le> x"
    using assms by (simp add: field_simps)
  then have lo: "pow2 (ilog2 x) \<le> x"
    using pos by (simp add: e pow2_def)
  have "(2::real) ^ (bitLength ?m - 1) \<le> real ?m"
    using b(1) by (metis of_nat_le_iff of_nat_numeral of_nat_power)
  also have "\<dots> < 1 / x" using mc by linarith
  finally have "x < 1 / 2 ^ (bitLength ?m - 1)"
    using assms by (simp add: field_simps)
  moreover have "pow2 (ilog2 x + 1) = 1 / 2 ^ (bitLength ?m - 1)"
  proof -
    have "ilog2 x + 1 = - int (bitLength ?m - 1)" using pos e by simp
    then show ?thesis by (simp only: pow2_neg)
  qed
  ultimately show ?thesis using lo by simp
qed

lemma roundHalfEven_near: "\<bar>of_int (roundHalfEven m) - m\<bar> \<le> 1 / 2"
  unfolding roundHalfEven_def Let_def by (auto; linarith)

lemma fl_nearest: "\<bar>fl x - x\<bar> \<le> pow2 (ilog2 \<bar>x\<bar> - 53)"
proof (cases "x = 0")
  case True
  then show ?thesis using pow2_pos [of "ilog2 \<bar>x\<bar> - 53"] by (simp add: fl_def)
next
  case False
  let ?u = "pow2 (ilog2 \<bar>x\<bar> - 52)"
  let ?R = "real_of_int (roundHalfEven (\<bar>x\<bar> / ?u))"
  have u: "0 < ?u" by (rule pow2_pos)
  have half: "?u = 2 * pow2 (ilog2 \<bar>x\<bar> - 53)"
    using pow2_Suc [of "ilog2 \<bar>x\<bar> - 53"] by simp
  have "fl x - x = sgn x * ?R * ?u - sgn x * \<bar>x\<bar>"
    using False by (simp add: fl_def Let_def mult_sgn_abs)
  also have "\<dots> = sgn x * (?R * ?u - \<bar>x\<bar>)"
    by (simp add: algebra_simps)
  finally have "\<bar>fl x - x\<bar> = \<bar>sgn x * (?R * ?u - \<bar>x\<bar>)\<bar>" by simp
  also have "\<dots> = \<bar>?R * ?u - \<bar>x\<bar>\<bar>"
    using False by (simp add: abs_mult abs_sgn_eq)
  also have "?R * ?u - \<bar>x\<bar> = (?R - \<bar>x\<bar> / ?u) * ?u"
    using u by (simp add: left_diff_distrib)
  also have "\<bar>(?R - \<bar>x\<bar> / ?u) * ?u\<bar> = \<bar>?R - \<bar>x\<bar> / ?u\<bar> * ?u"
    using u by (simp add: abs_mult)
  also have "\<dots> \<le> 1 / 2 * ?u"
    using roundHalfEven_near [of "\<bar>x\<bar> / ?u"] u by (intro mult_right_mono) simp_all
  also have "\<dots> = pow2 (ilog2 \<bar>x\<bar> - 53)" using half by simp
  finally show ?thesis .
qed

subsection \<open>Loading\<close>

lemma allOrNone_length: "allOrNone xs = Some ys \<Longrightarrow> length ys = length xs"
  by (induction xs arbitrary: ys) (auto split: option.splits)

lemma allOrNone_None: "allOrNone xs = None \<longleftrightarrow> None \<in> set xs"
  by (induction xs) (auto split: option.splits)

lemma fromItem_None: "None \<in> set (map (fromItem rnd) (enumerate n its)) \<longleftrightarrow> Malformed \<in> set its"
proof (induction its arbitrary: n)
  case Nil
  then show ?case by simp
next
  case (Cons a its)
  then show ?case by (cases a) (auto simp: fromItem_def)
qed

lemma length_fallbackQuestions: "length (fallbackQuestions rnd) = 5"
  by (simp add: fallbackQuestions_def fallback_def)

lemma loaded_count:
  "length (questions (fetchQuestions rnd f s)) =
     (case f of
        Failed \<Rightarrow> 5
      | NoResults \<Rightarrow> 0
      | Results its \<Rightarrow> if Malformed \<in> set its then 5 else length its)"
proof (cases f)
  case Failed
  then show ?thesis by (simp add: fetchQuestions_def resetTimes_def loadedQuestions_def length_fallbackQuestions)
next
  case NoResults
  then show ?thesis by (simp add: fetchQuestions_def resetTimes_def loadedQuestions_def)
next
  case (Results its)
  show ?thesis
  proof (cases "allOrNone (map (fromItem rnd) (enumerate 0 its))")
    case None
    then have "Malformed \<in> set its"
      using allOrNone_None fromItem_None by blast
    with None Results show ?thesis
      by (simp add: fetchQuestions_def resetTimes_def loadedQuestions_def length_fallbackQuestions)
  next
    case (Some loaded)
    then have "Malformed \<notin> set its"
      using allOrNone_None [of "map (fromItem rnd) (enumerate 0 its)"] fromItem_None [of rnd 0 its]
      by auto
    moreover have "length loaded = length its"
      using allOrNone_length [OF Some] by simp
    ultimately show ?thesis
      using Some Results by (simp add: fetchQuestions_def resetTimes_def loadedQuestions_def)
  qed
qed

text \<open>
  C9. After every completion of \<^verbatim>\<open>fetchQuestions\<close> (questions from the remote provider, the
  fallback set, or none at all) \<^verbatim>\<open>perQuestionTimeMs\<close> is an array of zeros as long as the
  loaded question list: five for the fallback set, the number of items for a well-formed
  answer of the provider, none when the answer holds no array.
\<close>

theorem fetchQuestions_times_parallel:
  "perQuestionTimeMs (fetchQuestions rnd f s)
     = replicate (length (questions (fetchQuestions rnd f s))) (Some 0)
   \<and> length (questions (fetchQuestions rnd f s)) =
     (case f of
        Failed \<Rightarrow> 5
      | NoResults \<Rightarrow> 0
      | Results its \<Rightarrow> if Malformed \<in> set its then 5 else length its)"
  using loaded_count [of rnd f s] by (simp add: fetchQuestions_def resetTimes_def)

text \<open>
  The listener of the "new test" button goes on after the load: it may submit at once (a
  countdown that is over already) and it opens question 0. When no question is open at its
  start, as \<^verbatim>\<open>submitQuiz\<close> leaves the state, the times are still these zeros at its end;
  an interval that is open at its start is added by \<^verbatim>\<open>navigateToQuestion(0)\<close> to the entry
  of the index that was current before.
\<close>

lemma submitQuiz_times:
  assumes "currentStartedAt (app c) = None"
  shows "perQuestionTimeMs (app (submitQuiz P t1 t2 r c)) = perQuestionTimeMs (app c)"
    and "currentStartedAt (app (submitQuiz P t1 t2 r c)) = None"
  using assms
  by (simp_all add: submitQuiz_def showScreen_def saveAttempt_def beforeSave_def closeTiming_def
      renderSummary_def loadAttempts_def stopTimingCurrent_def)

lemma tick_times:
  assumes "currentStartedAt (app c) = None"
  shows "perQuestionTimeMs (app (tick P e t0 t1 t2 c)) = perQuestionTimeMs (app c)"
    and "currentStartedAt (app (tick P e t0 t1 t2 c)) = None"
  using assms
  by (simp_all add: tick_def timeUp_def showTime_def clearInterval_def submitQuiz_times)

lemma newTest_keeps_zeros:
  assumes "currentStartedAt (app b) = None"
  shows "perQuestionTimeMs (app (newTest P f rnd clk b))
     = replicate (length (loadedQuestions rnd f)) (Some 0)"
  using assms
  by (simp add: newTest_def startQuiz_def openFirst_def navigateToQuestion_def
      renderQuestion_def stopTimingCurrent_def startTimer_def setInterval_def showScreen_def
      stampStart_def fetchQuestions_def resetTimes_def tick_times)

subsection \<open>Clues: acceptance and bookkeeping\<close>

lemma applyClue_rejects:
  "cluesLeft s \<le> 0 \<or> ty \<in> usedClueTypes s \<Longrightarrow>
     applyClue P r ty s = (Ignored, s) \<or> applyClue P r ty s = (Locked, s)"
  by (auto simp: applyClue_def clueLocked_def)

lemma applyClue_Shown:
  assumes "fst (applyClue P r ty s) = Shown m"
  shows "cluesLeft (snd (applyClue P r ty s)) = cluesLeft s - 1"
    and "usedClueTypes (snd (applyClue P r ty s)) = insert ty (usedClueTypes s)"
    and "ty \<notin> usedClueTypes s"
    and "usedClues (snd (applyClue P r ty s)) = usedClues s @ [(current s, ty)]"
  using assms
  by (auto simp: applyClue_def clueLocked_def recordClue_def Let_def split: if_splits)

lemma applyClue_keeps_used:
  "ty \<in> usedClueTypes s \<Longrightarrow> ty \<in> usedClueTypes (snd (applyClue P r ty' s))"
  by (auto simp: applyClue_def recordClue_def Let_def)

lemma clueRun_keeps_used:
  "ty \<in> usedClueTypes s \<Longrightarrow> ty \<in> usedClueTypes (clueRun P calls s)"
proof (induction calls arbitrary: s)
  case Nil
  then show ?case by (simp add: clueRun_def)
next
  case (Cons c calls)
  have "ty \<in> usedClueTypes (snd (applyClue P (snd c) (fst c) s))"
    using Cons.prems by (rule applyClue_keeps_used)
  from Cons.IH [OF this] show ?case by (simp add: clueRun_def)
qed

text \<open>
  No handler of the page takes a type out of \<^verbatim>\<open>usedClueTypes\<close> except the retake button,
  which resets the state.
\<close>

lemma stopTimingCurrent_used: "usedClueTypes (stopTimingCurrent t s) = usedClueTypes s"
  by (simp add: stopTimingCurrent_def split: option.splits)

lemma navigateToQuestion_used: "usedClueTypes (navigateToQuestion t1 t2 i s) = usedClueTypes s"
  by (simp add: navigateToQuestion_def renderQuestion_def stopTimingCurrent_used)

lemma submitQuiz_used: "usedClueTypes (app (submitQuiz P t1 t2 r b)) = usedClueTypes (app b)"
  by (simp add: submitQuiz_def showScreen_def saveAttempt_def beforeSave_def closeTiming_def
      renderSummary_def loadAttempts_def stopTimingCurrent_used)

lemma tick_used: "usedClueTypes (app (tick P endAt t0 t1 t2 b)) = usedClueTypes (app b)"
  by (simp add: tick_def timeUp_def showTime_def submitQuiz_used clearInterval_def)

lemma newTest_used: "usedClueTypes (app (newTest P f rnd clk b)) = usedClueTypes (app b)"
  by (simp add: newTest_def startQuiz_def openFirst_def navigateToQuestion_used startTimer_def
      setInterval_def tick_used showScreen_def stampStart_def fetchQuestions_def resetTimes_def)

lemma onHidden_used: "usedClueTypes (app (onHidden P t1 t2 b)) = usedClueTypes (app b)"
  by (simp add: onHidden_def addWarning_def afterWarning_def countWarning_def submitQuiz_used
      clearInterval_def)

lemma step_keeps_used:
  assumes "e \<noteq> Retake" and "ty \<in> usedClueTypes (app b)"
  shows "ty \<in> usedClueTypes (app (step P e b))"
proof (cases e)
  case (Clue ty' r)
  then show ?thesis using assms(2) by (simp add: applyClue_keeps_used)
next
  case (Select k i)
  then show ?thesis using assms(2) by (simp add: selectAnswer_def renderQuestion_def)
next
  case (Fire i t0 t1 t2)
  then show ?thesis using assms(2) by (simp add: tick_used split: option.splits)
qed (use assms in \<open>simp_all add: newTest_used navigateToQuestion_used submitQuiz_used
    onHidden_used fadeDone_def showScreen_def split: list.splits\<close>)

lemma run_keeps_used:
  assumes "Retake \<notin> set es" and "ty \<in> usedClueTypes (app b)"
  shows "ty \<in> usedClueTypes (app (run P es b))"
  using assms
proof (induction es arbitrary: b)
  case Nil
  then show ?case by (simp add: run_def)
next
  case (Cons e es)
  then have "ty \<in> usedClueTypes (app (step P e b))"
    using step_keeps_used [of e ty b P] by auto
  with Cons show ?case by (simp add: run_def)
qed

text \<open>
  C1. A call of \<^verbatim>\<open>applyClue\<close> with no clues left, or with a type that is already in
  \<^verbatim>\<open>usedClueTypes\<close>, is turned away and returns the state as it was. A call that shows a
  message has taken exactly one clue, added exactly its type to \<^verbatim>\<open>usedClueTypes\<close> (the type
  was not there before), appended exactly the pair of the current index and the type to the
  usage log, and after it no call with that type is accepted again: not after any series of
  clue calls, and not after any events of the page short of a retake.
\<close>

theorem applyClue_contract:
  "(cluesLeft s \<le> 0 \<or> ty \<in> usedClueTypes s \<longrightarrow>
      applyClue P r ty s = (Ignored, s) \<or> applyClue P r ty s = (Locked, s))
   \<and> (fst (applyClue P r ty s) = Shown m \<longrightarrow>
        cluesLeft (snd (applyClue P r ty s)) = cluesLeft s - 1
      \<and> usedClueTypes (snd (applyClue P r ty s)) = insert ty (usedClueTypes s)
      \<and> ty \<notin> usedClueTypes s
      \<and> usedClues (snd (applyClue P r ty s)) = usedClues s @ [(current s, ty)]
      \<and> (\<forall>calls r'. fst (applyClue P r' ty (clueRun P calls (snd (applyClue P r ty s))))
            \<in> {Ignored, Locked})
      \<and> (\<forall>b es r'. app b = snd (applyClue P r ty s) \<and> Retake \<notin> set es \<longrightarrow>
            fst (applyClue P r' ty (app (run P es b))) \<in> {Ignored, Locked}))"
proof -
  have rej: "cluesLeft s \<le> 0 \<or> ty \<in> usedClueTypes s \<longrightarrow>
      applyClue P r ty s = (Ignored, s) \<or> applyClue P r ty s = (Locked, s)"
    using applyClue_rejects by blast
  have locked: "fst (applyClue P r' ty s') \<in> {Ignored, Locked}"
    if "ty \<in> usedClueTypes s'" for r' s'
  proof -
    have "applyClue P r' ty s' = (Ignored, s') \<or> applyClue P r' ty s' = (Locked, s')"
      using that applyClue_rejects by blast
    then show ?thesis by auto
  qed
  have acc: "cluesLeft (snd (applyClue P r ty s)) = cluesLeft s - 1
      \<and> usedClueTypes (snd (applyClue P r ty s)) = insert ty (usedClueTypes s)
      \<and> ty \<notin> usedClueTypes s
      \<and> usedClues (snd (applyClue P r ty s)) = usedClues s @ [(current s, ty)]
      \<and> (\<forall>calls r'. fst (applyClue P r' ty (clueRun P calls (snd (applyClue P r ty s))))
            \<in> {Ignored, Locked})
      \<and> (\<forall>b es r'. app b = snd (applyClue P r ty s) \<and> Retake \<notin> set es \<longrightarrow>
            fst (applyClue P r' ty (app (run P es b))) \<in> {Ignored, Locked})"
    if ok: "fst (applyClue P r ty s) = Shown m"
  proof -
    have used: "ty \<in> usedClueTypes (snd (applyClue P r ty s))"
      using applyClue_Shown(2) [OF ok] by simp
    have again: "fst (applyClue P r' ty (clueRun P calls (snd (applyClue P r ty s)))) \<in> {Ignored, Locked}"
      for calls r'
      using used by (intro locked clueRun_keeps_used)
    have later: "fst (applyClue P r' ty (app (run P es b))) \<in> {Ignored, Locked}"
      if "app b = snd (applyClue P r ty s)" and "Retake \<notin> set es" for b es r'
    proof -
      have "ty \<in> usedClueTypes (app b)" using used that(1) by simp
      with that(2) have "ty \<in> usedClueTypes (app (run P es b))" by (rule run_keeps_used)
      then show ?thesis by (rule locked)
    qed
    show ?thesis
      using applyClue_Shown [OF ok] again later by blast
  qed
  show ?thesis using rej acc by blast
qed

lemma first_Paris:
  "applyClue plainText 0 ''first'' parisState = (Shown (StartsWith (CHR ''P'')), recordClue ''first'' parisState)"
  by (simp add: applyClue_def clueLocked_def objectPrototypeKeys_def parisState_def initialState_def
      parisQuestion_def firstLetter_def plainText_def alnum_def lowerAlnum_def upperLetters_def
      toUpperCaseAlnum_def lowerLetters_def)

lemma parisState_fields:
  "cluesLeft parisState = 3" "usedClueTypes parisState = {}" "usedClues parisState = []"
  "current parisState = 0"
  by (simp_all add: parisState_def initialState_def)

theorem applyClue_contract_witness:
  "fst (applyClue plainText 0 ''first'' parisState) = Shown (StartsWith (CHR ''P''))
   \<and> cluesLeft (snd (applyClue plainText 0 ''first'' parisState)) = 2
   \<and> usedClueTypes (snd (applyClue plainText 0 ''first'' parisState)) = {''first''}
   \<and> usedClues (snd (applyClue plainText 0 ''first'' parisState)) = [(0, ''first'')]
   \<and> ''first'' \<in> usedClueTypes (recordClue ''first'' parisState)
   \<and> applyClue plainText 0 ''first'' (recordClue ''first'' parisState)
       \<in> {(Ignored, recordClue ''first'' parisState), (Locked, recordClue ''first'' parisState)}"
proof -
  have ok: "fst (applyClue plainText 0 ''first'' parisState) = Shown (StartsWith (CHR ''P''))"
    by (simp add: first_Paris)
  have used: "''first'' \<in> usedClueTypes (recordClue ''first'' parisState)"
    by (simp add: recordClue_def)
  show ?thesis
    using ok used
      applyClue_contract [of parisState "''first''" plainText 0 "StartsWith (CHR ''P'')"]
      applyClue_contract [of "recordClue ''first'' parisState" "''first''" plainText 0 NoMessage]
    by (simp add: parisState_fields)
qed

text \<open>
  C10, amended. A type outside the four clue kinds that is not the name of a property inherited
  from \<^verbatim>\<open>Object.prototype\<close> either, not used yet, with a clue left: the call is accepted,
  takes one clue, marks the type used and logs it; the message is empty and nothing else
  changes, no question in particular.
\<close>

theorem applyClue_unrecognised:
  assumes "ty \<notin> set [''5050'', ''first'', ''guess'', ''keywords'']"
    and "ty \<notin> set objectPrototypeKeys"
    and "0 < cluesLeft s"
    and "ty \<notin> usedClueTypes s"
  shows "applyClue P r ty s =
     (Shown NoMessage,
      s\<lparr> cluesLeft := cluesLeft s - 1,
         usedClues := usedClues s @ [(current s, ty)],
         usedClueTypes := insert ty (usedClueTypes s) \<rparr>)"
  using assms by (simp add: applyClue_def clueLocked_def recordClue_def)

theorem applyClue_unrecognised_witness:
  "applyClue plainText 0 ''hint'' parisState =
     (Shown NoMessage,
      parisState\<lparr> cluesLeft := 2, usedClues := [(0, ''hint'')], usedClueTypes := {''hint''} \<rparr>)"
  using applyClue_unrecognised [of "''hint''" parisState plainText 0]
  by (simp add: objectPrototypeKeys_def parisState_def initialState_def)

text \<open>
  C10 as stated fails for a type that names an inherited property: \<^verbatim>\<open>toString\<close> is outside
  the four kinds and was never used, three clues are left, and the call is turned away as
  locked.
\<close>

theorem applyClue_inherited_key_locked:
  "''toString'' \<notin> set [''5050'', ''first'', ''guess'', ''keywords'']
   \<and> 0 < cluesLeft parisState
   \<and> ''toString'' \<notin> usedClueTypes parisState
   \<and> applyClue plainText 0 ''toString'' parisState = (Locked, parisState)"
  by (simp add: applyClue_def clueLocked_def objectPrototypeKeys_def parisState_def initialState_def)

subsection \<open>Navigating to the current question\<close>

lemma navigate_same_index:
  assumes "questions s \<noteq> []" and "current s < length (questions s)"
  shows "navigateToQuestion t1 t2 (int (current s)) s =
     renderQuestion ((stopTimingCurrent t1 s)\<lparr> currentStartedAt := Some t2 \<rparr>)"
proof -
  have "(stopTimingCurrent t1 s)\<lparr> current := current s, currentStartedAt := Some t2 \<rparr>
      = (stopTimingCurrent t1 s)\<lparr> currentStartedAt := Some t2 \<rparr>"
    by (simp add: stopTimingCurrent_def split: option.splits)
  then show ?thesis
    using assms by (simp add: navigateToQuestion_def)
qed

lemma renderQuestion_frame:
  "perQuestionTimeMs (renderQuestion s) = perQuestionTimeMs s"
  "currentStartedAt (renderQuestion s) = currentStartedAt s"
  "current (renderQuestion s) = current s"
  "length (questions (renderQuestion s)) = length (questions s)"
  by (simp_all add: renderQuestion_def)

text \<open>
  C7. In an active session (questions loaded, the times parallel to them, the current entry a
  number, the current question open since \<open>t0\<close>), \<^verbatim>\<open>navigateToQuestion(state.current)\<close>
  changes \<^verbatim>\<open>perQuestionTimeMs\<close> in one entry only: the open interval \<open>t1 - t0\<close> is added
  to the entry of the current question, where \<open>t1\<close> is the clock as read by
  \<^verbatim>\<open>stopTimingCurrent\<close>. Timing is reopened at \<open>t2\<close>, the second reading, and the current
  index stays. The time accounted to the question (recorded plus open interval) is the same
  after the call, taken at \<open>t2\<close>, as before it, taken at \<open>t1\<close>; and the recorded time does not
  shrink when the clock has not run backwards.
\<close>

theorem navigate_to_current:
  assumes "questions s \<noteq> []"
    and "current s < length (questions s)"
    and "length (perQuestionTimeMs s) = length (questions s)"
    and "perQuestionTimeMs s ! current s = Some v"
    and "currentStartedAt s = Some t0"
  shows "perQuestionTimeMs (navigateToQuestion t1 t2 (int (current s)) s)
           = (perQuestionTimeMs s)[current s := Some (v + (t1 - t0))]
       \<and> currentStartedAt (navigateToQuestion t1 t2 (int (current s)) s) = Some t2
       \<and> current (navigateToQuestion t1 t2 (int (current s)) s) = current s
       \<and> accounted (navigateToQuestion t1 t2 (int (current s)) s) t2 = accounted s t1
       \<and> (t0 \<le> t1 \<longrightarrow>
            timeOr0 (perQuestionTimeMs s) (current s)
              \<le> timeOr0 (perQuestionTimeMs (navigateToQuestion t1 t2 (int (current s)) s)) (current s))"
proof -
  let ?s' = "navigateToQuestion t1 t2 (int (current s)) s"
  have inside: "current s < length (perQuestionTimeMs s)"
    using assms(2,3) by simp
  have eq: "?s' = renderQuestion ((stopTimingCurrent t1 s)\<lparr> currentStartedAt := Some t2 \<rparr>)"
    using assms(1,2) by (rule navigate_same_index)
  have times: "perQuestionTimeMs ?s' = (perQuestionTimeMs s)[current s := Some (v + (t1 - t0))]"
    using inside assms(4,5)
    by (simp add: eq renderQuestion_frame stopTimingCurrent_def addAt_def)
  have started: "currentStartedAt ?s' = Some t2"
    by (simp add: eq renderQuestion_frame)
  have cur: "current ?s' = current s"
    using assms(5) by (simp add: eq renderQuestion_frame stopTimingCurrent_def)
  have acc: "accounted ?s' t2 = accounted s t1"
    using inside assms(4,5)
    by (simp add: accounted_def openInterval_def times started cur timeOr0_def)
  have mono: "t0 \<le> t1 \<longrightarrow>
      timeOr0 (perQuestionTimeMs s) (current s) \<le> timeOr0 (perQuestionTimeMs ?s') (current s)"
    using inside assms(4) by (simp add: times timeOr0_def)
  show ?thesis using times started cur acc mono by blast
qed

theorem navigate_to_current_witness:
  "perQuestionTimeMs (navigateToQuestion 4000 4001 0 parisState) = [Some 3000]
   \<and> currentStartedAt (navigateToQuestion 4000 4001 0 parisState) = Some 4001
   \<and> accounted (navigateToQuestion 4000 4001 0 parisState) 4001 = 3000
   \<and> accounted parisState 4000 = 3000"
proof -
  have f: "questions parisState \<noteq> []" "current parisState < length (questions parisState)"
    "length (perQuestionTimeMs parisState) = length (questions parisState)"
    "perQuestionTimeMs parisState ! current parisState = Some 0"
    "currentStartedAt parisState = Some 1000" "current parisState = 0"
    "perQuestionTimeMs parisState = [Some 0]"
    by (simp_all add: parisState_def initialState_def)
  have a: "accounted parisState 4000 = 3000"
    by (simp add: accounted_def openInterval_def timeOr0_def f)
  show ?thesis
    using navigate_to_current [OF f(1-5), of 4000 4001] a by (simp add: f(6,7))
qed

subsection \<open>The keywords clue\<close>

lemma bump_keys:
  "map fst (bump t m) = (if t \<in> set (map fst m) then map fst m else map fst m @ [t])"
  by (induction m) force+

lemma bump_map_of:
  "map_of (bump t m) = (map_of m)(t \<mapsto> (case map_of m t of None \<Rightarrow> 1 | Some n \<Rightarrow> n + 1))"
  by (induction m) (auto simp: fun_eq_iff)

lemma freq_snoc: "freq (xs @ [x]) = bump x (freq xs)"
  by (simp add: freq_def)

lemma freq_keys_set: "set (map fst (freq tokens)) = set tokens"
proof (induction tokens rule: rev_induct)
  case Nil
  then show ?case by (simp add: freq_def)
next
  case (snoc x xs)
  then show ?case by (auto simp: freq_snoc bump_keys)
qed

lemma freq_keys_distinct: "distinct (map fst (freq tokens))"
proof (induction tokens rule: rev_induct)
  case Nil
  then show ?case by (simp add: freq_def)
next
  case (snoc x xs)
  then show ?case by (simp add: freq_snoc bump_keys)
qed

lemma freq_map_of:
  "map_of (freq tokens) w = (if w \<in> set tokens then Some (count_list tokens w) else None)"
proof (induction tokens rule: rev_induct)
  case Nil
  then show ?case by (simp add: freq_def)
next
  case (snoc x xs)
  then show ?case by (auto simp: freq_snoc bump_map_of)
qed

lemma freq_counts:
  assumes "e \<in> set (freq tokens)"
  shows "snd e = count_list tokens (fst e)" and "fst e \<in> set tokens"
proof -
  have "map_of (freq tokens) (fst e) = Some (snd e)"
    using assms map_of_eq_Some_iff [OF freq_keys_distinct, of tokens "fst e" "snd e"] by simp
  then show "snd e = count_list tokens (fst e)" and "fst e \<in> set tokens"
    by (auto simp: freq_map_of split: if_splits)
qed

lemma firstPos_snoc_old: "w \<in> set xs \<Longrightarrow> firstPos (xs @ [x]) w = firstPos xs w"
  by (auto simp: firstPos_def takeWhile_append)

lemma firstPos_less: "w \<in> set xs \<Longrightarrow> firstPos xs w < length xs"
  by (induction xs) (auto simp: firstPos_def)

lemma firstPos_snoc_new: "x \<notin> set xs \<Longrightarrow> firstPos (xs @ [x]) x = length xs"
  by (simp add: firstPos_def takeWhile_append)

lemma freq_keys_ordered:
  "sorted_wrt (\<lambda>v w. firstPos tokens v < firstPos tokens w) (map fst (freq tokens))"
proof (induction tokens rule: rev_induct)
  case Nil
  then show ?case by (simp add: freq_def)
next
  case (snoc x xs)
  have old: "sorted_wrt (\<lambda>v w. firstPos (xs @ [x]) v < firstPos (xs @ [x]) w) (map fst (freq xs))"
    using snoc
    by (rule sorted_wrt_mono_rel [rotated]) (simp add: firstPos_snoc_old freq_keys_set del: set_map)
  show ?case
  proof (cases "x \<in> set xs")
    case True
    then show ?thesis using old by (simp add: freq_snoc bump_keys freq_keys_set del: set_map)
  next
    case False
    have "firstPos (xs @ [x]) v < firstPos (xs @ [x]) x" if "v \<in> set xs" for v
      using that False by (simp add: firstPos_snoc_old firstPos_snoc_new firstPos_less)
    then show ?thesis
      using old False
      by (simp add: freq_snoc bump_keys freq_keys_set sorted_wrt_append del: set_map)
  qed
qed


lemma insort_key_ranked:
  fixes f :: "'a \<Rightarrow> int"
  assumes "sorted_wrt (\<lambda>a b. f a < f b \<or> (f a = f b \<and> R a b)) ys"
    and "\<forall>y\<in>set ys. R x y"
  shows "sorted_wrt (\<lambda>a b. f a < f b \<or> (f a = f b \<and> R a b)) (insort_key f x ys)"
  using assms by (induction ys) (auto simp: set_insort_key)

lemma sort_key_ranked:
  fixes f :: "'a \<Rightarrow> int"
  assumes "sorted_wrt R xs"
  shows "sorted_wrt (\<lambda>a b. f a < f b \<or> (f a = f b \<and> R a b)) (sort_key f xs)"
  using assms
proof (induction xs)
  case Nil
  then show ?case by simp
next
  case (Cons x xs)
  then have "\<forall>y\<in>set (sort_key f xs). R x y" by simp
  moreover have "sorted_wrt (\<lambda>a b. f a < f b \<or> (f a = f b \<and> R a b)) (sort_key f xs)"
    using Cons by simp
  ultimately show ?case by (simp add: insort_key_ranked)
qed

lemma splitSpaces_nonempty: "splitSpaces s \<noteq> []"
  by (induction s) (auto split: list.splits)

lemma splitSpaces_chars:
  "w \<in> set (splitSpaces s) \<Longrightarrow> c \<in> set w \<Longrightarrow> c \<in> set s \<and> c \<noteq> CHR '' ''"
proof (induction s arbitrary: w)
  case Nil
  then show ?case by simp
next
  case (Cons a s)
  show ?case
  proof (cases "a = CHR '' ''")
    case True
    then show ?thesis using Cons by auto
  next
    case False
    obtain v vs where sp: "splitSpaces s = v # vs"
      using splitSpaces_nonempty [of s] by (cases "splitSpaces s") auto
    with False Cons.prems have "w = a # v \<or> w \<in> set vs" by simp
    then show ?thesis
    proof
      assume "w = a # v"
      then show ?thesis using Cons.IH [of v] Cons.prems(2) sp False by auto
    next
      assume "w \<in> set vs"
      then show ?thesis using Cons.IH [of w] Cons.prems(2) sp by auto
    qed
  qed
qed

lemma keywordTokens_shape:
  assumes "w \<in> set (keywordTokens P s)"
  shows "3 < length w" and "w \<notin> set stop" and "\<forall>c\<in>set w. lowerAlnum c"
proof -
  from assms show "3 < length w" and "w \<notin> set stop"
    by (simp_all add: keywordTokens_def)
  from assms have piece: "w \<in> set (splitSpaces (blankOthers (toLowerCase P (decodeHTML P s))))"
    by (simp add: keywordTokens_def)
  show "\<forall>c\<in>set w. lowerAlnum c"
  proof
    fix c assume "c \<in> set w"
    from splitSpaces_chars [OF piece this]
    show "lowerAlnum c" by (auto simp: blankOthers_def split: if_splits)
  qed
qed

lemma sorted_keys_ranked:
  "sorted_wrt (ranksBefore tokens) (map fst (sort_key (\<lambda>e. - int (snd e)) (freq tokens)))"
proof -
  let ?R = "\<lambda>a b. firstPos tokens (fst a) < firstPos tokens (fst b)"
  let ?f = "\<lambda>e :: string \<times> nat. - int (snd e)"
  let ?S = "sort_key ?f (freq tokens)"
  have "sorted_wrt ?R (freq tokens)"
    using freq_keys_ordered [of tokens] by (simp add: sorted_wrt_map)
  then have "sorted_wrt (\<lambda>a b. ?f a < ?f b \<or> (?f a = ?f b \<and> ?R a b)) ?S"
    by (rule sort_key_ranked)
  then have "sorted_wrt (\<lambda>a b. ranksBefore tokens (fst a) (fst b)) ?S"
  proof (rule sorted_wrt_mono_rel [rotated])
    fix a b
    assume "a \<in> set ?S" and "b \<in> set ?S"
      and "?f a < ?f b \<or> (?f a = ?f b \<and> ?R a b)"
    then show "ranksBefore tokens (fst a) (fst b)"
      using freq_counts(1) [of a tokens] freq_counts(1) [of b tokens]
      by (auto simp: ranksBefore_def)
  qed
  then show ?thesis by (simp add: sorted_wrt_map)
qed

lemma topKeywords_keys:
  "topKeywords tokens = take 5 (map fst (sort_key (\<lambda>e. - int (snd e)) (freq tokens)))"
  by (simp add: topKeywords_def take_map)

lemma topKeywords_ranked: "sorted_wrt (ranksBefore tokens) (topKeywords tokens)"
  unfolding topKeywords_keys using sorted_keys_ranked by (rule sorted_wrt_take)

lemma sorted_keys_distinct: "distinct (map fst (sort_key f (freq tokens)))"
  using freq_keys_distinct [of tokens] by (simp add: distinct_map)

lemma topKeywords_distinct: "distinct (topKeywords tokens)"
proof -
  have "topKeywords tokens = take 5 (map fst (sort_key (\<lambda>e. - int (snd e)) (freq tokens)))"
    by (simp add: topKeywords_def take_map)
  then show ?thesis
    using sorted_keys_distinct [of "\<lambda>e. - int (snd e)" tokens] by simp
qed

lemma topKeywords_subset: "set (topKeywords tokens) \<subseteq> set tokens"
proof -
  have "set (take 5 (sort_key (\<lambda>e. - int (snd e)) (freq tokens))) \<subseteq> set (freq tokens)"
    using set_take_subset [of 5 "sort_key (\<lambda>e. - int (snd e)) (freq tokens)"] by simp
  then show ?thesis
    using freq_keys_set [of tokens] by (auto simp: topKeywords_def)
qed

lemma topKeywords_length: "length (topKeywords tokens) = min 5 (card (set tokens))"
proof -
  have "length (freq tokens) = card (set tokens)"
    using distinct_card [OF freq_keys_distinct, of tokens] freq_keys_set [of tokens] by simp
  then show ?thesis by (simp add: topKeywords_def min.commute)
qed

lemma topKeywords_beats_rest:
  assumes "v \<in> set (topKeywords tokens)" and "w \<in> set tokens" and "w \<notin> set (topKeywords tokens)"
  shows "ranksBefore tokens v w"
proof -
  let ?K = "map fst (sort_key (\<lambda>e. - int (snd e)) (freq tokens))"
  have all: "sorted_wrt (ranksBefore tokens) (take 5 ?K @ drop 5 ?K)"
    using sorted_keys_ranked [of tokens] by simp
  have "w \<in> set ?K"
    using assms(2) freq_keys_set [of tokens] by simp
  then have "w \<in> set (take 5 ?K) \<union> set (drop 5 ?K)"
    by (metis append_take_drop_id set_append)
  with assms(3) have "w \<in> set (drop 5 ?K)" by (simp add: topKeywords_keys)
  moreover have "v \<in> set (take 5 ?K)" using assms(1) by (simp add: topKeywords_keys)
  ultimately show ?thesis
    using all unfolding sorted_wrt_append by blast
qed

lemma applyClue_keywords_Shown:
  assumes "fst (applyClue P r ''keywords'' s) = Shown m"
  shows "current s < length (questions s)"
    and "m = keywordsClue P (questions s ! current s)"
  using assms by (auto simp: applyClue_def Let_def split: if_splits)

text \<open>
  The code cuts the lower-cased text at every space, after blanking all characters outside
  \<^verbatim>\<open>a-z0-9\<close>, and drops the short pieces: what is left are the alphanumeric words of the
  text, so its tokens are the tokens of the specification.
\<close>

lemma lowerAlnum_wordChar: "lowerAlnum c = wordChar c"
  by (auto simp: lowerAlnum_def wordChar_def)

lemma wordChar_not_space: "wordChar c \<Longrightarrow> c \<noteq> CHR '' ''"
  by (auto simp: wordChar_def)

lemma blankOthers_wordChar: "blankOthers s = map (\<lambda>c. if wordChar c then c else CHR '' '') s"
  by (simp add: blankOthers_def lowerAlnum_wordChar)

lemma blankOthers_append: "blankOthers (a @ b) = blankOthers a @ blankOthers b"
  by (simp add: blankOthers_wordChar)

lemma blankOthers_alnum: "\<forall>c\<in>set a. wordChar c \<Longrightarrow> blankOthers a = a"
  by (induction a) (simp_all add: blankOthers_wordChar)

lemma splitSpaces_run:
  assumes "\<forall>c\<in>set a. wordChar c"
  shows "splitSpaces (a @ u) = (a @ hd (splitSpaces u)) # tl (splitSpaces u)"
  using assms
proof (induction a)
  case Nil
  then show ?case using splitSpaces_nonempty [of u] by simp
next
  case (Cons c a)
  then show ?case by (simp add: wordChar_not_space)
qed

lemma alnumWords_gap:
  "\<forall>c\<in>set g. \<not> wordChar c \<Longrightarrow> alnumWords (g @ t) = alnumWords t"
  by (induction g) simp_all

lemma alnumWords_word:
  assumes "w \<noteq> []" and "\<forall>c\<in>set w. wordChar c" and "t = [] \<or> \<not> wordChar (hd t)"
  shows "alnumWords (w @ t) = w # alnumWords t"
proof -
  obtain c cs where w: "w = c # cs" using assms(1) by (cases w) auto
  have "takeWhile wordChar (cs @ t) = cs" "dropWhile wordChar (cs @ t) = t"
    using assms(2,3) w by (cases t; simp add: takeWhile_append dropWhile_append)+
  then show ?thesis using assms(2) w by simp
qed

text \<open>
  \<open>alnumWords\<close> read the other way round: a text made of words of \<^verbatim>\<open>a-z0-9\<close> with other
  characters before, between and after them has exactly these words, in this order.
\<close>

lemma alnumWords_interleaved:
  assumes "\<forall>c\<in>set g0. \<not> wordChar c"
    and "\<forall>(w, g)\<in>set wgs. w \<noteq> [] \<and> (\<forall>c\<in>set w. wordChar c) \<and> (\<forall>c\<in>set g. \<not> wordChar c)"
    and "\<forall>i. Suc i < length wgs \<longrightarrow> snd (wgs ! i) \<noteq> []"
  shows "alnumWords (g0 @ concat (map (\<lambda>(w, g). w @ g) wgs)) = map fst wgs"
  using assms
proof (induction wgs arbitrary: g0)
  case Nil
  then show ?case using alnumWords_gap [of g0 "[]"] by simp
next
  case (Cons p wgs)
  obtain w g where p: "p = (w, g)" by (cases p)
  let ?rest = "concat (map (\<lambda>(w, g). w @ g) wgs)"
  have w: "w \<noteq> []" "\<forall>c\<in>set w. wordChar c" and g: "\<forall>c\<in>set g. \<not> wordChar c"
    using Cons.prems(2) p by auto
  have tl: "\<forall>i. Suc i < length wgs \<longrightarrow> snd (wgs ! i) \<noteq> []"
    using Cons.prems(3) by fastforce
  have ih: "alnumWords (g @ ?rest) = map fst wgs"
    using Cons.IH [OF g _ tl] Cons.prems(2) by simp
  have edge: "g @ ?rest = [] \<or> \<not> wordChar (hd (g @ ?rest))"
  proof (cases "g = []")
    case False
    then show ?thesis using g by (cases g) auto
  next
    case True
    have "wgs = []"
    proof (rule ccontr)
      assume "wgs \<noteq> []"
      then have "Suc 0 < length (p # wgs)" by (cases wgs) auto
      then have "snd ((p # wgs) ! 0) \<noteq> []" using Cons.prems(3) by blast
      then show False using True p by simp
    qed
    then show ?thesis using True by simp
  qed
  have "alnumWords (g0 @ w @ g @ ?rest) = alnumWords (w @ g @ ?rest)"
    using Cons.prems(1) by (rule alnumWords_gap)
  also have "\<dots> = w # alnumWords (g @ ?rest)"
    using w edge by (rule alnumWords_word)
  finally show ?case using ih p by simp
qed

lemma splitSpaces_words:
  "filter (\<lambda>w. w \<noteq> []) (splitSpaces (blankOthers t)) = alnumWords t"
proof (induction t rule: alnumWords.induct)
  case 1
  then show ?case by (simp add: blankOthers_wordChar)
next
  case (2 c cs)
  show ?case
  proof (cases "wordChar c")
    case False
    then show ?thesis using 2 by (simp add: blankOthers_wordChar)
  next
    case True
    let ?a = "c # takeWhile wordChar cs"
    let ?b = "dropWhile wordChar cs"
    have a: "\<forall>x\<in>set ?a. wordChar x" using True by (auto dest: set_takeWhileD)
    have "blankOthers (c # cs) = ?a @ blankOthers ?b"
      using blankOthers_append [of ?a ?b] blankOthers_alnum [OF a] by simp
    then have sp: "splitSpaces (blankOthers (c # cs))
        = (?a @ hd (splitSpaces (blankOthers ?b))) # tl (splitSpaces (blankOthers ?b))"
      using splitSpaces_run [OF a] by simp
    have ih: "filter (\<lambda>w. w \<noteq> []) (splitSpaces (blankOthers ?b)) = alnumWords ?b"
      using 2 True by simp
    have "filter (\<lambda>w. w \<noteq> []) (splitSpaces (blankOthers (c # cs))) = ?a # alnumWords ?b"
    proof (cases ?b)
      case Nil
      have "splitSpaces (blankOthers ?b) = [[]]" "alnumWords ?b = []"
        unfolding Nil by (simp_all add: blankOthers_wordChar)
      then show ?thesis using sp by simp
    next
      case (Cons d rest)
      then have "\<not> wordChar d" using hd_dropWhile [of wordChar cs] by auto
      then have "splitSpaces (blankOthers ?b) = [] # splitSpaces (blankOthers rest)"
        unfolding Cons by (simp add: blankOthers_wordChar)
      then have "splitSpaces (blankOthers (c # cs)) = ?a # splitSpaces (blankOthers rest)"
        and "filter (\<lambda>w. w \<noteq> []) (splitSpaces (blankOthers rest)) = alnumWords ?b"
        using sp ih by simp_all
      then show ?thesis by simp
    qed
    then show ?thesis using True by simp
  qed
qed

lemma keywordTokens_spec: "keywordTokens P prompt = specTokens P prompt"
proof -
  let ?u = "toLowerCase P (decodeHTML P prompt)"
  let ?keep = "\<lambda>w. 3 < length w \<and> w \<notin> set stop"
  have "filter ?keep (splitSpaces (blankOthers ?u))
      = filter ?keep (filter (\<lambda>w. w \<noteq> []) (splitSpaces (blankOthers ?u)))"
    by (simp add: conj_commute) (rule filter_cong, auto)
  then show ?thesis
    by (simp only: keywordTokens_def specTokens_def splitSpaces_words)
qed


text \<open>
  The ranking is a strict order, so the description \<open>mostFrequent\<close> fits one list only.
\<close>

lemma ranksBefore_asym: "ranksBefore T v w \<Longrightarrow> \<not> ranksBefore T w v"
  by (auto simp: ranksBefore_def)

lemma ranked_lists_equal:
  assumes "sorted_wrt (ranksBefore T) xs" and "sorted_wrt (ranksBefore T) ys"
    and "distinct xs" and "distinct ys" and "set xs = set ys"
  shows "xs = ys"
  using assms
proof (induction xs arbitrary: ys)
  case Nil
  then show ?case by simp
next
  case (Cons x xs)
  then obtain y ys' where ys: "ys = y # ys'" by (cases ys) auto
  have xy: "x = y"
  proof (rule ccontr)
    assume ne: "x \<noteq> y"
    then have "x \<in> set ys'" "y \<in> set xs" using Cons.prems(5) ys by auto
    then have "ranksBefore T y x" "ranksBefore T x y"
      using Cons.prems(1,2) ys by auto
    then show False using ranksBefore_asym by blast
  qed
  then have "set xs = set ys'" using Cons.prems(3,4,5) ys by auto
  then have "xs = ys'" using Cons ys by auto
  then show ?case using xy ys by simp
qed

lemma mostFrequent_topKeywords: "mostFrequent T (topKeywords T)"
  unfolding mostFrequent_def
  using topKeywords_distinct [of T] topKeywords_subset [of T] topKeywords_length [of T]
    topKeywords_ranked [of T] topKeywords_beats_rest [of _ T]
  by blast

lemma mostFrequent_unique:
  assumes "mostFrequent T L"
  shows "L = topKeywords T"
proof -
  let ?K = "topKeywords T"
  have K: "mostFrequent T ?K" by (rule mostFrequent_topKeywords)
  have len: "length L = length ?K" using assms K by (simp add: mostFrequent_def)
  have sub: "set L \<subseteq> set ?K"
  proof
    fix v assume v: "v \<in> set L"
    show "v \<in> set ?K"
    proof (rule ccontr)
      assume nv: "v \<notin> set ?K"
      have "card (set L) = card (set ?K)"
        using len assms K by (simp add: mostFrequent_def distinct_card)
      moreover have "\<not> set ?K \<subseteq> set L"
      proof
        assume "set ?K \<subseteq> set L"
        then have "set ?K = set L"
          using \<open>card (set L) = card (set ?K)\<close> by (simp add: card_subset_eq)
        then show False using v nv by simp
      qed
      then obtain w where w: "w \<in> set ?K" "w \<notin> set L" by blast
      have "v \<in> set T" "w \<in> set T" using v w assms K by (auto simp: mostFrequent_def)
      then have "ranksBefore T w v" "ranksBefore T v w"
        using v nv w assms K by (auto simp: mostFrequent_def)
      then show False using ranksBefore_asym by blast
    qed
  qed
  have "card (set L) = card (set ?K)"
    using len assms K by (simp add: mostFrequent_def distinct_card)
  then have "set L = set ?K" using sub by (simp add: card_subset_eq)
  then show ?thesis
    using assms K by (intro ranked_lists_equal [of T]) (simp_all add: mostFrequent_def)
qed

text \<open>
  C8. When \<^verbatim>\<open>applyClue('keywords')\<close> shows a message, there is a current question, and the
  tokens the code takes from its prompt are the tokens of the specification: the alphanumeric
  words of the decoded, lower-cased prompt that are longer than three characters and no
  stopword, in the order of the prompt and with their multiplicity. The message lists
  \<open>topKeywords\<close> of these tokens (or says that there are none). The list holds tokens only,
  each once, five of them or all distinct tokens if there are fewer; in the list a token stands
  before another only if it ranks before it (more frequent in the prompt, or as frequent and
  first met earlier), and every listed token ranks before every token left out. In short, the
  list is \<open>mostFrequent\<close> for the tokens of the prompt, and no other list is.
\<close>

theorem keywords_clue:
  assumes "fst (applyClue P r ''keywords'' s) = Shown m"
  shows "current s < length (questions s)
    \<and> currentTokens P s = promptTokens P s
    \<and> m = (if topKeywords (promptTokens P s) = [] then NoKeywords
           else Keywords (topKeywords (promptTokens P s)))
    \<and> (\<forall>w\<in>set (promptTokens P s).
          3 < length w \<and> w \<notin> set stop \<and> (\<forall>c\<in>set w. wordChar c))
    \<and> set (topKeywords (promptTokens P s)) \<subseteq> set (promptTokens P s)
    \<and> distinct (topKeywords (promptTokens P s))
    \<and> length (topKeywords (promptTokens P s)) = min 5 (card (set (promptTokens P s)))
    \<and> (\<forall>i j. i < j \<and> j < length (topKeywords (promptTokens P s)) \<longrightarrow>
          ranksBefore (promptTokens P s)
            (topKeywords (promptTokens P s) ! i) (topKeywords (promptTokens P s) ! j))
    \<and> (\<forall>v\<in>set (topKeywords (promptTokens P s)).
          \<forall>w\<in>set (promptTokens P s) - set (topKeywords (promptTokens P s)).
            ranksBefore (promptTokens P s) v w)
    \<and> mostFrequent (promptTokens P s) (topKeywords (promptTokens P s))
    \<and> (\<forall>best. mostFrequent (promptTokens P s) best \<longrightarrow> best = topKeywords (promptTokens P s))"
proof -
  let ?T = "promptTokens P s"
  have same: "currentTokens P s = ?T"
    by (simp add: currentTokens_def promptTokens_def keywordTokens_spec)
  have msg: "m = (if topKeywords ?T = [] then NoKeywords else Keywords (topKeywords ?T))"
    using applyClue_keywords_Shown(2) [OF assms] same
    by (simp add: keywordsClue_def currentTokens_def Let_def)
  have shape: "\<forall>w\<in>set ?T. 3 < length w \<and> w \<notin> set stop \<and> (\<forall>c\<in>set w. wordChar c)"
    using keywordTokens_shape same unfolding currentTokens_def lowerAlnum_wordChar by metis
  have order: "\<forall>i j. i < j \<and> j < length (topKeywords ?T) \<longrightarrow>
      ranksBefore ?T (topKeywords ?T ! i) (topKeywords ?T ! j)"
    using topKeywords_ranked [of ?T] by (simp add: sorted_wrt_iff_nth_less)
  have rest: "\<forall>v\<in>set (topKeywords ?T). \<forall>w\<in>set ?T - set (topKeywords ?T). ranksBefore ?T v w"
    using topKeywords_beats_rest by blast
  have only: "\<forall>best. mostFrequent ?T best \<longrightarrow> best = topKeywords ?T"
    using mostFrequent_unique by blast
  show ?thesis
    using applyClue_keywords_Shown(1) [OF assms] same msg shape topKeywords_subset [of ?T]
      topKeywords_distinct [of ?T] topKeywords_length [of ?T] order rest only
      mostFrequent_topKeywords [of ?T]
    by blast
qed

lemma ocean_words:
  "alnumWords (asciiLower (question oceanQuestion))
     = [''between'', ''europe'', ''america'', ''lies'', ''which'', ''ocean'', ''the'', ''atlantic'',
        ''ocean'', ''the'', ''pacific'', ''ocean'', ''or'', ''the'', ''indian'', ''ocean'']"
  by (simp add: oceanQuestion_def asciiLower_def upperLetters_def lowerLetters_def wordChar_def)

lemma ocean_tokens:
  "promptTokens plainText oceanState
     = [''europe'', ''america'', ''lies'', ''ocean'', ''atlantic'', ''ocean'', ''pacific'', ''ocean'',
        ''indian'', ''ocean'']"
proof -
  have "questions oceanState ! current oceanState = oceanQuestion"
    by (simp add: oceanState_def initialState_def)
  then show ?thesis
    by (simp add: promptTokens_def specTokens_def plainText_def ocean_words stop_def)
qed

lemma ocean_top:
  "topKeywords [''europe'', ''america'', ''lies'', ''ocean'', ''atlantic'', ''ocean'', ''pacific'',
      ''ocean'', ''indian'', ''ocean'']
     = [''ocean'', ''europe'', ''america'', ''lies'', ''atlantic'']"
  by (simp add: topKeywords_def freq_def)


lemma ocean_code_tokens:
  "currentTokens plainText oceanState
     = [''europe'', ''america'', ''lies'', ''ocean'', ''atlantic'', ''ocean'', ''pacific'', ''ocean'',
        ''indian'', ''ocean'']"
  by (simp add: currentTokens_def oceanState_def initialState_def oceanQuestion_def
      keywordTokens_def plainText_def asciiLower_def upperLetters_def lowerLetters_def
      blankOthers_def lowerAlnum_def stop_def)

lemma ocean_keywords:
  "fst (applyClue plainText 0 ''keywords'' oceanState)
     = Shown (Keywords [''ocean'', ''europe'', ''america'', ''lies'', ''atlantic''])"
proof -
  have "current oceanState < length (questions oceanState)"
    by (simp add: oceanState_def initialState_def)
  moreover have "cluesLeft oceanState = 3" "\<not> clueLocked oceanState ''keywords''"
    by (simp_all add: oceanState_def initialState_def clueLocked_def objectPrototypeKeys_def)
  moreover have "keywordsClue plainText (questions oceanState ! current oceanState)
      = Keywords [''ocean'', ''europe'', ''america'', ''lies'', ''atlantic'']"
    using ocean_code_tokens ocean_top by (simp add: keywordsClue_def currentTokens_def)
  ultimately show ?thesis by (simp add: applyClue_def)
qed

theorem keywords_clue_witness:
  "fst (applyClue plainText 0 ''keywords'' oceanState)
     = Shown (Keywords [''ocean'', ''europe'', ''america'', ''lies'', ''atlantic''])
   \<and> currentTokens plainText oceanState = promptTokens plainText oceanState
   \<and> promptTokens plainText oceanState
     = [''europe'', ''america'', ''lies'', ''ocean'', ''atlantic'', ''ocean'', ''pacific'', ''ocean'',
        ''indian'', ''ocean'']
   \<and> topKeywords (promptTokens plainText oceanState)
     = [''ocean'', ''europe'', ''america'', ''lies'', ''atlantic'']
   \<and> ranksBefore (promptTokens plainText oceanState) ''ocean'' ''europe''
   \<and> ranksBefore (promptTokens plainText oceanState) ''atlantic'' ''pacific''"
proof -
  let ?T = "promptTokens plainText oceanState"
  note kc = keywords_clue [OF ocean_keywords]
  have same: "currentTokens plainText oceanState = ?T"
    using kc by (elim conjE)
  have "\<forall>i j. i < j \<and> j < length (topKeywords ?T) \<longrightarrow>
      ranksBefore ?T (topKeywords ?T ! i) (topKeywords ?T ! j)"
    using kc by (elim conjE)
  then have "0 < (1::nat) \<and> 1 < length (topKeywords ?T) \<longrightarrow>
      ranksBefore ?T (topKeywords ?T ! 0) (topKeywords ?T ! 1)"
    by blast
  then have first: "ranksBefore ?T ''ocean'' ''europe''"
    by (simp add: ocean_tokens ocean_top)
  have "\<forall>v\<in>set (topKeywords ?T). \<forall>w\<in>set ?T - set (topKeywords ?T). ranksBefore ?T v w"
    using kc by (elim conjE)
  then have "''atlantic'' \<in> set (topKeywords ?T) \<longrightarrow> ''pacific'' \<in> set ?T - set (topKeywords ?T)
      \<longrightarrow> ranksBefore ?T ''atlantic'' ''pacific''"
    by blast
  then have cut: "ranksBefore ?T ''atlantic'' ''pacific''"
    by (simp add: ocean_tokens ocean_top)
  show ?thesis
    using ocean_keywords same first cut by (simp add: ocean_tokens ocean_top)
qed

subsection \<open>Scoring\<close>

lemma allUpTo_iff: "allUpTo p k \<longleftrightarrow> (\<forall>c\<le>k. p c)"
  by (induction k) (auto simp: le_Suc_eq)

lemma allUpTo_step: "allUpTo p k = (if k = 0 then p 0 else p k \<and> allUpTo p (k - 1))"
  by (cases k) simp_all

lemmas score_eval = agrees_def scorePct_def exactPct_def mathRound_def fl_def ilog2_def
  bitLength.simps pow2_def roundHalfEven_def

lemma rows_1_8: "rowOk (Suc 0)" "rowOk 2" "rowOk 3" "rowOk 4" "rowOk 5" "rowOk 6" "rowOk 7" "rowOk 8"
  by (simp_all add: rowOk_def allUpTo_step score_eval)

lemma rows_9_14: "rowOk 9" "rowOk 10" "rowOk 11" "rowOk 12" "rowOk 13" "rowOk 14"
  by (simp_all add: rowOk_def allUpTo_step score_eval)

lemma rows_15_19: "rowOk 15" "rowOk 16" "rowOk 17" "rowOk 18" "rowOk 19"
  by (simp_all add: rowOk_def allUpTo_step score_eval)

lemma rows_20_23: "rowOk 20" "rowOk 21" "rowOk 22" "rowOk 23"
  by (simp_all add: rowOk_def allUpTo_step score_eval)

lemma rows_24_27: "rowOk 24" "rowOk 25" "rowOk 26" "rowOk 27"
  by (simp_all add: rowOk_def allUpTo_step score_eval)

lemma rows_28_30: "rowOk 28" "rowOk 29" "rowOk 30"
  by (simp_all add: rowOk_def allUpTo_step score_eval)

lemma rows_31_33: "rowOk 31" "rowOk 32" "rowOk 33"
  by (simp_all add: rowOk_def allUpTo_step score_eval)

lemma rows_34_36: "rowOk 34" "rowOk 35" "rowOk 36"
  by (simp_all add: rowOk_def allUpTo_step score_eval)

lemma rows_37_39: "rowOk 37" "rowOk 38" "rowOk 39"
  by (simp_all add: rowOk_def allUpTo_step score_eval)

lemma row_0: "rowOk 0"
  by (simp add: rowOk_def)

lemma rows_table: "allUpTo rowOk 39"
  by (simp add: allUpTo_step row_0 rows_1_8 rows_9_14 rows_15_19 rows_20_23 rows_24_27 rows_28_30 rows_31_33 rows_34_36 rows_37_39)

lemma score_exact:
  assumes "0 < n" and "n < 40" and "c \<le> n"
  shows "scorePct c n = Some (exactPct c n)"
proof -
  have "rowOk n"
    using rows_table assms(2) by (simp add: allUpTo_iff)
  then show ?thesis
    using assms(1,3) by (simp add: rowOk_def allUpTo_iff agrees_def)
qed

lemma countCorrect_from:
  "foldl (\<lambda>n q. if isCorrect P q then n + 1 else n) k qs = k + length (filter (isCorrect P) qs)"
  by (induction qs arbitrary: k) simp_all

lemma countCorrect_filter: "countCorrect P qs = length (filter (isCorrect P) qs)"
  by (simp add: countCorrect_def countCorrect_from)

lemma countCorrect_le: "countCorrect P qs \<le> length qs"
  by (simp add: countCorrect_filter)

lemma isCorrect_iff:
  "isCorrect P q \<longleftrightarrow>
     (\<exists>i. answerIndex q = Some i \<and> decodedChoice P q i = decodeHTML P (correct q))"
  by (simp add: isCorrect_def split: option.splits)

lemma performance_iff:
  "performance c = ''Excellent! You nailed it.'' \<longleftrightarrow> 12 \<le> c"
  "performance c = ''Good job! Keep pushing for excellence.'' \<longleftrightarrow> 8 \<le> c \<and> c < 12"
  "performance c = ''Fair attempt. A bit more practice will help.'' \<longleftrightarrow> 5 \<le> c \<and> c < 8"
  "performance c = ''Needs improvement. Start with the fundamentals.'' \<longleftrightarrow> c < 5"
  by (auto simp: performance_def)

lemma beforeSave_questions: "questions (app (beforeSave P t1 b)) = questions (app b)"
  by (simp add: beforeSave_def closeTiming_def renderSummary_def loadAttempts_def stopTimingCurrent_def split: option.splits)

lemma showScreen_frame:
  "app (showScreen i b) = app b" "perfText (showScreen i b) = perfText b"
  "localStorage (showScreen i b) = localStorage b" "storageFull (showScreen i b) = storageFull b"
  by (simp_all add: showScreen_def)

lemma saveAttempt_frame:
  "app (saveAttempt P a b) = app b" "perfText (saveAttempt P a b) = perfText b"
  by (simp_all add: saveAttempt_def)

lemma submitQuiz_perfText:
  "perfText (submitQuiz P t1 t2 reason b) = performance (countCorrect P (questions (app b)))"
  by (simp add: submitQuiz_def showScreen_frame saveAttempt_frame beforeSave_def closeTiming_def
      renderSummary_def loadAttempts_def stopTimingCurrent_def split: option.splits)

text \<open>
  C2, amended. For a quiz of at least one and fewer than 40 questions (the application loads 15,
  or the 5 of the fallback set): the attempt that \<^verbatim>\<open>submitQuiz\<close> builds counts exactly the
  questions whose selected index is not null and whose decoded selected choice equals the
  decoded correct answer (an index outside the choices reads \<^verbatim>\<open>undefined\<close>, which decodes
  as the text "undefined"); its total is the number of questions; its \<^verbatim>\<open>scorePct\<close>, computed
  in doubles as \<^verbatim>\<open>Math.round((correct / total) * 100)\<close>, is the exact
  \<open>round(100 * correct / total)\<close> with ties going up; and the performance summary shown is
  "Excellent" exactly from 12 correct answers, "Good" from 8 to 11, "Fair" from 5 to 7 and
  "Needs improvement" below 5.
\<close>

theorem score_report:
  assumes "questions (app b) \<noteq> []" and "length (questions (app b)) < 40"
  shows "a_correct (submittedAttempt P t1 t2 reason b)
           = int (length (filter (isCorrect P) (questions (app b))))
       \<and> (\<forall>q. isCorrect P q \<longleftrightarrow>
            (\<exists>i. answerIndex q = Some i
               \<and> (if i < length (choices q) then decodeHTML P (choices q ! i)
                   else decodeHTML P ''undefined'') = decodeHTML P (correct q)))
       \<and> a_total (submittedAttempt P t1 t2 reason b) = int (length (questions (app b)))
       \<and> a_scorePct (submittedAttempt P t1 t2 reason b)
           = Some (exactPct (length (filter (isCorrect P) (questions (app b))))
                (length (questions (app b))))
       \<and> perfText (submitQuiz P t1 t2 reason b)
           = performance (length (filter (isCorrect P) (questions (app b))))
       \<and> (performance c = ''Excellent! You nailed it.'' \<longleftrightarrow> 12 \<le> c)
       \<and> (performance c = ''Good job! Keep pushing for excellence.'' \<longleftrightarrow> 8 \<le> c \<and> c < 12)
       \<and> (performance c = ''Fair attempt. A bit more practice will help.'' \<longleftrightarrow> 5 \<le> c \<and> c < 8)
       \<and> (performance c = ''Needs improvement. Start with the fundamentals.'' \<longleftrightarrow> c < 5)"
proof -
  let ?qs = "questions (app b)"
  have n: "0 < length ?qs" using assms(1) by simp
  have pct: "scorePct (countCorrect P ?qs) (length ?qs)
      = Some (exactPct (countCorrect P ?qs) (length ?qs))"
    using n assms(2) countCorrect_le by (rule score_exact)
  have "a_scorePct (submittedAttempt P t1 t2 reason b)
      = Some (exactPct (length (filter (isCorrect P) ?qs)) (length ?qs))"
    using pct by (simp add: submittedAttempt_def buildAttempt_def beforeSave_questions
        countCorrect_filter)
  moreover have "a_correct (submittedAttempt P t1 t2 reason b) = int (length (filter (isCorrect P) ?qs))"
    and "a_total (submittedAttempt P t1 t2 reason b) = int (length ?qs)"
    by (simp_all add: submittedAttempt_def buildAttempt_def beforeSave_questions countCorrect_filter)
  moreover have "perfText (submitQuiz P t1 t2 reason b) = performance (length (filter (isCorrect P) ?qs))"
    by (simp add: submitQuiz_perfText countCorrect_filter)
  moreover have "\<forall>q. isCorrect P q \<longleftrightarrow>
      (\<exists>i. answerIndex q = Some i
         \<and> (if i < length (choices q) then decodeHTML P (choices q ! i)
             else decodeHTML P ''undefined'') = decodeHTML P (correct q))"
    using isCorrect_iff [of P] by (simp add: decodedChoice_def)
  ultimately show ?thesis
    using performance_iff by blast
qed


lemma paris_isCorrect:
  "isCorrect plainText parisQuestion" "\<not> isCorrect plainText (parisQuestion\<lparr> answerIndex := Some 2 \<rparr>)"
  by (simp_all add: isCorrect_def decodedChoice_def parisQuestion_def plainText_def)

lemma mixed_questions:
  "questions (app (mixedBrowser right wrong))
     = replicate right parisQuestion @ replicate wrong (parisQuestion\<lparr> answerIndex := Some 2 \<rparr>)"
  by (simp add: mixedBrowser_def)

lemma mixed_correct:
  "length (filter (isCorrect plainText) (questions (app (mixedBrowser right wrong)))) = right"
  by (simp add: mixed_questions paris_isCorrect)

theorem score_report_witness:
  "a_correct (submittedAttempt plainText 9000 9001 ''Manual submit'' (mixedBrowser 12 3)) = 12
   \<and> a_total (submittedAttempt plainText 9000 9001 ''Manual submit'' (mixedBrowser 12 3)) = 15
   \<and> a_scorePct (submittedAttempt plainText 9000 9001 ''Manual submit'' (mixedBrowser 12 3)) = Some 80
   \<and> perfText (submitQuiz plainText 9000 9001 ''Manual submit'' (mixedBrowser 12 3))
       = ''Excellent! You nailed it.''"
proof -
  have q: "questions (app (mixedBrowser 12 3)) \<noteq> []" "length (questions (app (mixedBrowser 12 3))) < 40"
    "length (questions (app (mixedBrowser 12 3))) = 15"
    by (simp_all add: mixed_questions)
  have e: "exactPct 12 15 = 80" "performance 12 = ''Excellent! You nailed it.''"
    by (simp_all add: exactPct_def mathRound_def performance_def)
  show ?thesis
    using score_report [OF q(1,2), of plainText 9000 9001 "''Manual submit''"]
    by (simp add: mixed_correct q(3) e)
qed

text \<open>
  C2 as stated, for every quiz with questions, fails at 40 questions with 23 correct answers:
  \<open>100 * 23 / 40\<close> is 57.5 and rounds to 58, while the code divides first, and the double
  nearest to 0.575 times 100 is the double just below 57.5, which \<^verbatim>\<open>Math.round\<close> takes
  to 57.
\<close>

theorem score_forty_questions:
  "a_correct (submittedAttempt plainText 9000 9001 ''Manual submit'' (mixedBrowser 23 17)) = 23
   \<and> a_total (submittedAttempt plainText 9000 9001 ''Manual submit'' (mixedBrowser 23 17)) = 40
   \<and> a_scorePct (submittedAttempt plainText 9000 9001 ''Manual submit'' (mixedBrowser 23 17)) = Some 57
   \<and> exactPct 23 40 = 58"
proof -
  have "countCorrect plainText (questions (app (mixedBrowser 23 17))) = 23"
    using mixed_correct [of 23 17] by (simp add: countCorrect_filter)
  moreover have "length (questions (app (mixedBrowser 23 17))) = 40"
    by (simp add: mixed_questions)
  moreover have "scorePct 23 40 = Some 57"
    by (simp add: scorePct_def mathRound_def fl_def ilog2_def bitLength.simps pow2_def
        roundHalfEven_def)
  moreover have "exactPct 23 40 = 58"
    by (simp add: exactPct_def mathRound_def)
  ultimately show ?thesis
    by (simp add: submittedAttempt_def buildAttempt_def beforeSave_questions)
qed

subsection \<open>Saving an attempt and reading it back\<close>

lemma readItem_itemJSON: "readItem (itemJSON it) = Some it"
  by (cases "i_userAnswer it") (simp_all add: readItem_def itemJSON_def prop_of_def)

lemma readItems_itemJSON: "readItems (map itemJSON its) = Some its"
  by (induction its) (simp_all add: readItem_itemJSON)

lemma readAttempt_attemptJSON:
  "a_scorePct a = Some p \<Longrightarrow> readAttempt (attemptJSON a) = Some a"
  by (simp add: readAttempt_def attemptJSON_def prop_of_def readItems_itemJSON)

lemma readAttempt_NaN: "a_scorePct a = None \<Longrightarrow> readAttempt (attemptJSON a) = None"
  by (simp add: readAttempt_def attemptJSON_def prop_of_def)

lemma beforeSave_frame:
  "questions (app (beforeSave P t1 b)) = questions (app b)"
  "email (app (beforeSave P t1 b)) = email (app b)"
  "localStorage (beforeSave P t1 b) = localStorage b"
  "storageFull (beforeSave P t1 b) = storageFull b"
  by (simp_all add: beforeSave_def closeTiming_def renderSummary_def loadAttempts_def stopTimingCurrent_def split: option.splits)

lemma beforeSave_stored: "storedAttempts P (beforeSave P t1 b) = storedAttempts P b"
  by (simp add: storedAttempts_def beforeSave_frame)

lemma showScreen_keeps:
  "app (showScreen i b) = app b" "localStorage (showScreen i b) = localStorage b"
  by (simp_all add: showScreen_def)

lemma saveAttempt_stored:
  "\<not> storageFull b \<Longrightarrow> storedAttempts P (saveAttempt P a b) = storedAttempts P b @ [attemptJSON a]"
  by (simp add: saveAttempt_def storedAttempts_def)

lemma submitQuiz_stored:
  assumes "\<not> storageFull b"
  shows "storedAttempts P (submitQuiz P t1 t2 reason b)
     = storedAttempts P b @ [attemptJSON (submittedAttempt P t1 t2 reason b)]"
proof -
  let ?b1 = "beforeSave P t1 b"
  have "storedAttempts P (submitQuiz P t1 t2 reason b)
      = storedAttempts P (saveAttempt P (submittedAttempt P t1 t2 reason b) ?b1)"
    by (simp add: submitQuiz_def storedAttempts_def showScreen_keeps)
  also have "\<dots> = storedAttempts P ?b1 @ [attemptJSON (submittedAttempt P t1 t2 reason b)]"
    using assms by (simp add: saveAttempt_stored beforeSave_frame)
  finally show ?thesis by (simp add: beforeSave_stored)
qed

lemma submitted_scorePct:
  "questions (app b) \<noteq> [] \<Longrightarrow> \<exists>p. a_scorePct (submittedAttempt P t1 t2 reason b) = Some p"
  by (simp add: submittedAttempt_def buildAttempt_def beforeSave_frame scorePct_def)

text \<open>
  C6, amended. When a quiz is submitted and the storage takes the write, the stored list is the
  list stored before with the new attempt's tree at its end, and \<^verbatim>\<open>loadAttempts\<close> reads that
  list back. The keys of the tree are those of the object literal in the code
  (\<^verbatim>\<open>completedAt, reason, correct, total, scorePct, items\<close>, and per item
  \<^verbatim>\<open>question, userAnswer, correct, timeMs\<close>). For a quiz with at least one question the tree
  reads back as the attempt itself, equal in every field. With no question loaded the score is
  NaN, which is stored as \<^verbatim>\<open>null\<close>, and the tree does not read back as the attempt.
\<close>

theorem saved_attempt_roundtrip:
  assumes "\<not> storageFull b"
  shows "storedAttempts P (submitQuiz P t1 t2 reason b)
           = storedAttempts P b @ [attemptJSON (submittedAttempt P t1 t2 reason b)]
       \<and> attempts (app (loadAttempts P (submitQuiz P t1 t2 reason b)))
           = storedAttempts P b @ [attemptJSON (submittedAttempt P t1 t2 reason b)]
       \<and> objectKeys (attemptJSON (submittedAttempt P t1 t2 reason b))
           = [''completedAt'', ''reason'', ''correct'', ''total'', ''scorePct'', ''items'']
       \<and> (\<forall>it\<in>set (a_items (submittedAttempt P t1 t2 reason b)).
            objectKeys (itemJSON it) = [''question'', ''userAnswer'', ''correct'', ''timeMs''])
       \<and> (questions (app b) \<noteq> [] \<longrightarrow>
            readAttempt (attemptJSON (submittedAttempt P t1 t2 reason b))
              = Some (submittedAttempt P t1 t2 reason b))
       \<and> (questions (app b) = [] \<longrightarrow>
            a_scorePct (submittedAttempt P t1 t2 reason b) = None
          \<and> prop_of (attemptJSON (submittedAttempt P t1 t2 reason b)) ''scorePct'' = Some JNull
          \<and> readAttempt (attemptJSON (submittedAttempt P t1 t2 reason b)) = None)"
proof -
  let ?a = "submittedAttempt P t1 t2 reason b"
  have reads: "readAttempt (attemptJSON ?a) = Some ?a" if some: "questions (app b) \<noteq> []"
  proof -
    obtain p where "a_scorePct ?a = Some p"
      using submitted_scorePct [OF some] by blast
    then show ?thesis by (rule readAttempt_attemptJSON)
  qed
  have nan: "a_scorePct ?a = None \<and> prop_of (attemptJSON ?a) ''scorePct'' = Some JNull
      \<and> readAttempt (attemptJSON ?a) = None" if "questions (app b) = []"
  proof -
    have none: "a_scorePct ?a = None"
      using that by (simp add: submittedAttempt_def buildAttempt_def beforeSave_frame scorePct_def)
    then have "prop_of (attemptJSON ?a) ''scorePct'' = Some JNull"
      by (simp add: attemptJSON_def prop_of_def)
    then show ?thesis using none readAttempt_NaN by blast
  qed
  have "attempts (app (loadAttempts P (submitQuiz P t1 t2 reason b)))
      = storedAttempts P (submitQuiz P t1 t2 reason b)"
    by (simp add: loadAttempts_def)
  moreover have "objectKeys (attemptJSON ?a)
      = [''completedAt'', ''reason'', ''correct'', ''total'', ''scorePct'', ''items'']"
    and "\<forall>it\<in>set (a_items ?a).
      objectKeys (itemJSON it) = [''question'', ''userAnswer'', ''correct'', ''timeMs'']"
    by (simp_all add: objectKeys_def attemptJSON_def itemJSON_def)
  ultimately show ?thesis
    using submitQuiz_stored [OF assms] reads nan by simp
qed

lemma parisBrowser_fields:
  "questions (app parisBrowser) = [parisQuestion]" "\<not> storageFull parisBrowser"
  "storedAttempts P parisBrowser = []"
  by (simp_all add: parisBrowser_def loggedIn_def parisState_def storedAttempts_def)

lemma emptyBrowser_fields:
  "questions (app (mixedBrowser 0 0)) = []" "\<not> storageFull (mixedBrowser 0 0)"
  by (simp_all add: mixedBrowser_def loggedIn_def)

theorem saved_attempt_roundtrip_witness:
  "storedAttempts plainText (submitQuiz plainText 9000 9001 ''Manual submit'' parisBrowser)
     = [attemptJSON (submittedAttempt plainText 9000 9001 ''Manual submit'' parisBrowser)]
   \<and> readAttempt (attemptJSON (submittedAttempt plainText 9000 9001 ''Manual submit'' parisBrowser))
     = Some (submittedAttempt plainText 9000 9001 ''Manual submit'' parisBrowser)
   \<and> prop_of (attemptJSON (submittedAttempt plainText 9000 9001 ''Time up'' (mixedBrowser 0 0)))
        ''scorePct'' = Some JNull
   \<and> readAttempt (attemptJSON (submittedAttempt plainText 9000 9001 ''Time up'' (mixedBrowser 0 0)))
     = None"
  using saved_attempt_roundtrip [of parisBrowser plainText 9000 9001 "''Manual submit''"]
    saved_attempt_roundtrip [of "mixedBrowser 0 0" plainText 9000 9001 "''Time up''"]
  by (simp add: parisBrowser_fields emptyBrowser_fields)

text \<open>
  C6 as stated fails twice. The keys written are not the field names of section 3 of the
  specification, neither for the attempt nor for its items. And an attempt submitted with no
  question loaded has the score NaN, which is stored as \<^verbatim>\<open>null\<close>: what is read back is not
  the attempt.
\<close>

theorem saved_attempt_field_names:
  "objectKeys (attemptJSON (submittedAttempt plainText 9000 9001 ''Manual submit'' parisBrowser))
     \<noteq> specAttemptFields
   \<and> map objectKeys (map itemJSON
        (a_items (submittedAttempt plainText 9000 9001 ''Manual submit'' parisBrowser)))
     \<noteq> [specItemFields]
   \<and> readAttempt (attemptJSON (submittedAttempt plainText 9000 9001 ''Time up'' (mixedBrowser 0 0)))
     \<noteq> Some (submittedAttempt plainText 9000 9001 ''Time up'' (mixedBrowser 0 0))"
proof -
  have "a_scorePct (submittedAttempt plainText 9000 9001 ''Time up'' (mixedBrowser 0 0)) = None"
    by (simp add: submittedAttempt_def buildAttempt_def beforeSave_frame mixedBrowser_def scorePct_def)
  then have "readAttempt (attemptJSON (submittedAttempt plainText 9000 9001 ''Time up'' (mixedBrowser 0 0)))
      = None"
    by (rule readAttempt_NaN)
  moreover have "a_items (submittedAttempt plainText 9000 9001 ''Manual submit'' parisBrowser)
      = [buildItem plainText (app (beforeSave plainText 9000 parisBrowser)) 0 parisQuestion]"
    by (simp add: submittedAttempt_def buildAttempt_def beforeSave_frame parisBrowser_fields
        enumerate_eq_zip)
  ultimately show ?thesis
    by (simp add: objectKeys_def attemptJSON_def itemJSON_def specAttemptFields_def
        specItemFields_def)
qed

subsection \<open>The 50/50 clue and the selection\<close>

text \<open>
  What 50/50 does to the choices: when the correct answer is found among them and the random
  index names a wrong one, exactly these two are left, in their order, and the selection is
  cleared.
\<close>

lemma kept_by_index:
  "map snd (filter (\<lambda>(i, c). p i) (enumerate n xs)) = nths xs {i. p (i + n)}"
proof (induction xs arbitrary: n rule: rev_induct)
  case Nil
  then show ?case by simp
next
  case (snoc x xs)
  have "enumerate n (xs @ [x]) = enumerate n xs @ [(n + length xs, x)]"
    by (simp add: enumerate_append_eq)
  then show ?case
    using snoc [of n] by (simp add: nths_append ac_simps)
qed

lemma findIndex_Some:
  "findIndex p xs = Some i \<Longrightarrow> i < length xs \<and> p (xs ! i)"
proof (induction xs arbitrary: i)
  case Nil
  then show ?case by simp
next
  case (Cons x xs)
  then show ?case by (cases "p x") auto
qed

lemma keepWrong_Some:
  assumes "keepWrong P r q = Some j"
  shows "j < length (choices q)"
    and "Some j \<noteq> findIndex (\<lambda>c. decodeHTML P c = decodeHTML P (correct q)) (choices q)"
proof -
  from assms have "j \<in> set (wrongIdxs P q)"
    by (auto simp: keepWrong_def Let_def split: if_splits)
  then show "j < length (choices q)"
    and "Some j \<noteq> findIndex (\<lambda>c. decodeHTML P c = decodeHTML P (correct q)) (choices q)"
    by (auto simp: wrongIdxs_def)
qed

lemma fiftyFifty_two_choices:
  assumes "findIndex (\<lambda>c. decodeHTML P c = decodeHTML P (correct q)) (choices q) = Some ci"
    and "keepWrong P r q = Some j"
  shows "choices (fiftyFifty P r q) = nths (choices q) {ci, j}"
    and "length (choices (fiftyFifty P r q)) = 2"
    and "set (choices (fiftyFifty P r q)) = {choices q ! ci, choices q ! j}"
    and "decodeHTML P (choices q ! ci) = decodeHTML P (correct q)"
    and "answerIndex (fiftyFifty P r q) = None"
proof -
  have ci: "ci < length (choices q)" "decodeHTML P (choices q ! ci) = decodeHTML P (correct q)"
    using findIndex_Some [OF assms(1)] by simp_all
  have j: "j < length (choices q)" "j \<noteq> ci"
    using keepWrong_Some [OF assms(2)] assms(1) by auto
  have "{i. Some i = Some ci \<or> Some i = Some j} = {ci, j}" by auto
  then show kept: "choices (fiftyFifty P r q) = nths (choices q) {ci, j}"
    using kept_by_index [of "\<lambda>i. Some i = Some ci \<or> Some i = Some j" 0 "choices q"]
    by (simp add: fiftyFifty_def assms Let_def)
  have "{i. i < length (choices q) \<and> i \<in> {ci, j}} = {ci, j}"
    using ci(1) j(1) by auto
  then show "length (choices (fiftyFifty P r q)) = 2"
    using j(2) by (simp add: kept length_nths)
  show "set (choices (fiftyFifty P r q)) = {choices q ! ci, choices q ! j}"
    using ci(1) j(1) by (auto simp: kept set_nths)
  show "decodeHTML P (choices q ! ci) = decodeHTML P (correct q)" by (rule ci(2))
  show "answerIndex (fiftyFifty P r q) = None" by (simp add: fiftyFifty_def Let_def)
qed

text \<open>
  C5 says that 50/50 keeps the selection when the selected choice is retained. The code's
  own comment says so too (\<^verbatim>\<open>q.answerIndex = null; // reset selection if invalid\<close>), but the
  assignment is unconditional. Here the first choice, the correct answer, is selected; 50/50
  with the random number 0 retains the first and the second choice, so the selection still
  names a retained choice at the same index, and it is reset all the same.
\<close>

theorem fiftyFifty_resets_kept_selection:
  "answerIndex (questions parisState ! 0) = Some 0
   \<and> choices (questions parisState ! 0) = [''Paris'', ''Lyon'', ''Marseille'', ''Nice'']
   \<and> fst (applyClue plainText 0 ''5050'' parisState) = Shown RemovedTwo
   \<and> choices (questions (snd (applyClue plainText 0 ''5050'' parisState)) ! 0) = [''Paris'', ''Lyon'']
   \<and> answerIndex (questions (snd (applyClue plainText 0 ''5050'' parisState)) ! 0) = None"
proof -
  have w: "wrongIdxs plainText parisQuestion = [1, 2, 3]"
    by (simp add: wrongIdxs_def parisQuestion_def plainText_def upt_rec)
  have k: "keepWrong plainText 0 parisQuestion = Some 1"
    by (simp add: keepWrong_def w fl_def)
  have f: "fiftyFifty plainText 0 parisQuestion
      = parisQuestion\<lparr> choices := [''Paris'', ''Lyon''], answerIndex := None, visited := True \<rparr>"
    by (simp add: fiftyFifty_def k) (simp add: parisQuestion_def plainText_def enumerate_eq_zip upt_rec)
  have s: "questions parisState = [parisQuestion]" "current parisState = 0"
    "cluesLeft parisState = 3" "\<not> clueLocked parisState ''5050''"
    by (simp_all add: parisState_def initialState_def clueLocked_def objectPrototypeKeys_def)
  have "applyClue plainText 0 ''5050'' parisState
      = (Shown RemovedTwo, recordClue ''5050''
          (parisState\<lparr> questions := [fiftyFifty plainText 0 parisQuestion] \<rparr>))"
    by (simp add: applyClue_def s)
  then show ?thesis
    by (simp add: f s recordClue_def) (simp add: parisQuestion_def)
qed

subsection \<open>Selecting an answer\<close>

text \<open>
  A click on a choice button stores the position of the button in the question the button was
  made for, be that question the current one or not, and be the position an index of its
  present choices or not; the choices stay as they are. A button left from an earlier load only
  renders the current question.
\<close>

lemma selectAnswer_sets:
  assumes "k < length (questions s)"
  shows "answerIndex (questions (selectAnswer k i s) ! k) = Some i"
    and "length (questions (selectAnswer k i s)) = length (questions s)"
    and "choices (questions (selectAnswer k i s) ! k) = choices (questions s ! k)"
  using assms by (simp_all add: selectAnswer_def renderQuestion_def nth_list_update)

lemma selectAnswer_detached:
  assumes "length (questions s) \<le> k"
  shows "selectAnswer k i s = renderQuestion s"
  using assms by (simp add: selectAnswer_def)

subsection \<open>Runs of the page: warnings and the countdown\<close>

lemma fallbackQuestions_nonempty: "fallbackQuestions rnd \<noteq> []"
  using length_fallbackQuestions [of rnd] by auto

lemma loaded_offline: "loadedQuestions rnd Failed = fallbackQuestions rnd"
  by (simp add: loadedQuestions_def)

lemma reason_of_submitted:
  "prop_of (attemptJSON (submittedAttempt P t1 t2 r b)) ''reason'' = Some (JStr r)"
  by (simp add: prop_of_def attemptJSON_def submittedAttempt_def buildAttempt_def)

text \<open>
  The handlers one by one. A hidden tab counts only while the quiz screen is shown; below the
  limit it changes the counter alone; at the limit it clears the interval that
  \<^verbatim>\<open>state.timerInterval\<close> names and stores one attempt with the cheating reason. A tick
  before the end only writes the remaining time, which is never negative. A timer that is the
  one \<^verbatim>\<open>state.timerInterval\<close> names stops itself when its countdown is over: it stores
  one attempt with "Time up" and never fires again.
\<close>

lemma submitQuiz_app_frame:
  "warnings (app (submitQuiz P t1 t2 r b)) = warnings (app b)"
  "maxWarnings (app (submitQuiz P t1 t2 r b)) = maxWarnings (app b)"
  "intervals (submitQuiz P t1 t2 r b) = intervals b"
  by (simp_all add: submitQuiz_def showScreen_def saveAttempt_def beforeSave_def closeTiming_def
      renderSummary_def loadAttempts_def stopTimingCurrent_def split: option.splits)

lemma clearInterval_frame:
  "app (clearInterval i b) = app b" "storageFull (clearInterval i b) = storageFull b"
  "localStorage (clearInterval i b) = localStorage b"
  by (simp_all add: clearInterval_def)

lemma clearInterval_gone: "map_of (intervals (clearInterval (Some i) b)) i = None"
proof -
  have "i \<notin> fst ` set (filter (\<lambda>(j, e). Some j \<noteq> Some i) (intervals b))" by auto
  then show ?thesis by (simp add: clearInterval_def map_of_eq_None_iff)
qed

lemma onHidden_elsewhere:
  "''quiz-screen'' \<notin> set (activeScreens b) \<Longrightarrow> onHidden P t1 t2 b = b"
  by (simp add: onHidden_def)

lemma onHidden_counts:
  "''quiz-screen'' \<in> set (activeScreens b) \<Longrightarrow>
     warnings (app (onHidden P t1 t2 b)) = warnings (app b) + 1"
  by (simp add: onHidden_def addWarning_def afterWarning_def countWarning_def
      submitQuiz_app_frame clearInterval_frame)

lemma onHidden_below:
  assumes "''quiz-screen'' \<in> set (activeScreens b)"
    and "warnings (app b) + 1 < maxWarnings (app b)"
  shows "onHidden P t1 t2 b = b\<lparr> app := (app b)\<lparr> warnings := warnings (app b) + 1 \<rparr> \<rparr>"
  using assms by (simp add: onHidden_def addWarning_def afterWarning_def countWarning_def)

lemma storedAttempts_cong:
  "localStorage b' = localStorage b \<Longrightarrow> email (app b') = email (app b) \<Longrightarrow>
     storedAttempts P b' = storedAttempts P b"
  by (simp add: storedAttempts_def)

lemma submitQuiz_reasons:
  assumes "\<not> storageFull b"
  shows "reasons P (submitQuiz P t1 t2 r b) = reasons P b @ [Some (JStr r)]"
  using submitQuiz_stored [OF assms, of P t1 t2 r]
  by (simp add: reasons_def reason_of_submitted)

lemma onHidden_reached:
  assumes "''quiz-screen'' \<in> set (activeScreens b)"
    and "maxWarnings (app b) \<le> warnings (app b) + 1"
    and "\<not> storageFull b"
    and "timerInterval (app b) = Some i"
  shows "reasons P (onHidden P t1 t2 b)
           = reasons P b @ [Some (JStr ''Cheating not allowed (max warnings exceeded)'')]"
    and "map_of (intervals (onHidden P t1 t2 b)) i = None"
proof -
  let ?c = "clearInterval (timerInterval (app (countWarning b))) (countWarning b)"
  have eq: "onHidden P t1 t2 b
      = submitQuiz P t1 t2 ''Cheating not allowed (max warnings exceeded)'' ?c"
    using assms(1,2) by (simp add: onHidden_def addWarning_def afterWarning_def countWarning_def)
  have full: "\<not> storageFull ?c"
    using assms(3) by (simp add: clearInterval_frame countWarning_def)
  have same: "reasons P ?c = reasons P b"
    by (simp add: reasons_def storedAttempts_def clearInterval_frame countWarning_def)
  show "reasons P (onHidden P t1 t2 b)
      = reasons P b @ [Some (JStr ''Cheating not allowed (max warnings exceeded)'')]"
    using submitQuiz_reasons [OF full, of P t1 t2] same by (simp add: eq)
  have "timerInterval (app (countWarning b)) = Some i"
    using assms(4) by (simp add: countWarning_def)
  then show "map_of (intervals (onHidden P t1 t2 b)) i = None"
    by (simp add: eq submitQuiz_app_frame clearInterval_gone)
qed

lemma remainingAt_nonneg: "0 \<le> remainingAt endAt t0"
  by (simp add: remainingAt_def)

lemma tick_running:
  "t0 < endAt \<Longrightarrow> tick P endAt t0 t1 t2 b = b\<lparr> timerText := timeText (endAt - t0) \<rparr>"
  by (simp add: tick_def remainingAt_def showTime_def)

lemma tick_over:
  "endAt \<le> t0 \<Longrightarrow>
     tick P endAt t0 t1 t2 b = timeUp P t1 t2 (b\<lparr> timerText := timeText 0 \<rparr>)"
  by (simp add: tick_def remainingAt_def showTime_def)

lemma timeText_zero: "timeText 0 = ''00:00''"
  by (simp add: timeText_def toString.simps digit_def padStart2_def)

lemma timeText_sample: "timeText 1799001 = ''29:59''" "timeText 61000 = ''01:01''"
  by (simp_all add: timeText_def toString.simps digit_def padStart2_def)

lemma fire_cleared: "map_of (intervals b) i = None \<Longrightarrow> step P (Fire i t0 t1 t2) b = b"
  by simp

lemma own_timer_stops:
  assumes "timerInterval (app b) = Some i"
    and "map_of (intervals b) i = Some endAt"
    and "endAt \<le> t0"
    and "\<not> storageFull b"
  shows "reasons P (step P (Fire i t0 t1 t2) b) = reasons P b @ [Some (JStr ''Time up'')]"
    and "step P (Fire i t0' t1' t2') (step P (Fire i t0 t1 t2) b) = step P (Fire i t0 t1 t2) b"
proof -
  let ?b1 = "b\<lparr> timerText := timeText 0 \<rparr>"
  let ?c = "clearInterval (timerInterval (app ?b1)) ?b1"
  have fire: "step P (Fire i t0 t1 t2) b = submitQuiz P t1 t2 ''Time up'' ?c"
    using assms(2,3) by (simp add: tick_over timeUp_def)
  have full: "\<not> storageFull ?c" using assms(4) by (simp add: clearInterval_frame)
  have same: "reasons P ?c = reasons P b"
    by (simp add: reasons_def storedAttempts_def clearInterval_frame)
  show "reasons P (step P (Fire i t0 t1 t2) b) = reasons P b @ [Some (JStr ''Time up'')]"
    unfolding fire using submitQuiz_reasons [OF full, of P t1 t2] same by simp
  have "map_of (intervals (step P (Fire i t0 t1 t2) b)) i = None"
    unfolding fire using assms(1) by (simp add: submitQuiz_app_frame clearInterval_gone)
  then show "step P (Fire i t0' t1' t2') (step P (Fire i t0 t1 t2) b) = step P (Fire i t0 t1 t2) b"
    by (rule fire_cleared)
qed

text \<open>The runs, evaluated with the questions left symbolic.\<close>

lemmas page_eval = run_def offline_def newTest_def startQuiz_def stampStart_def openFirst_def
  fetchQuestions_def resetTimes_def loaded_offline length_fallbackQuestions
  fallbackQuestions_nonempty loggedIn_def initialState_def
  showScreen_def shown_def startTimer_def endAtOf_def setInterval_def tick_def remainingAt_def
  showTime_def timeUp_def navigateToQuestion_def stopTimingCurrent_def renderQuestion_def
  addAt_def onHidden_def addWarning_def countWarning_def afterWarning_def clearInterval_def
  submitQuiz_def beforeSave_def closeTiming_def renderSummary_def loadAttempts_def
  saveAttempt_def storedAttempts_def storageKeyFor_def fadeDone_def reasons_def
  reason_of_submitted

text \<open>
  C3 says that the warning count never exceeds \<^verbatim>\<open>maxWarnings\<close>, 4, and that nothing
  happens after the submission it triggers. The README promises the same ("Incremental
  warnings (0-4)"), and \<^verbatim>\<open>resetApp\<close> resets the count on retake and logout; going back to
  the dashboard does not. In \<open>secondQuizRun\<close> the first quiz ends at four warnings with one
  submission, and the first warning of the second quiz raises the count to 5 and submits that
  quiz at once. In \<open>fadeWindowRun\<close> a fifth event within the 300 ms in which the quiz screen
  still carries \<^verbatim>\<open>active\<close> after the submission is counted as well and submits the same
  quiz a second time.
\<close>

theorem warnings_exceed_max:
  "warnings (app (run P (take 6 secondQuizRun) (loggedIn ''a@b.c''))) = 4
   \<and> reasons P (run P (take 6 secondQuizRun) (loggedIn ''a@b.c''))
       = [Some (JStr ''Cheating not allowed (max warnings exceeded)'')]
   \<and> maxWarnings (app (run P secondQuizRun (loggedIn ''a@b.c''))) = 4
   \<and> warnings (app (run P secondQuizRun (loggedIn ''a@b.c''))) = 5
   \<and> reasons P (run P secondQuizRun (loggedIn ''a@b.c''))
       = [Some (JStr ''Cheating not allowed (max warnings exceeded)''),
          Some (JStr ''Cheating not allowed (max warnings exceeded)'')]
   \<and> warnings (app (run P fadeWindowRun (loggedIn ''a@b.c''))) = 5
   \<and> reasons P (run P fadeWindowRun (loggedIn ''a@b.c''))
       = [Some (JStr ''Cheating not allowed (max warnings exceeded)''),
          Some (JStr ''Cheating not allowed (max warnings exceeded)'')]"
  by (simp add: page_eval secondQuizRun_def fadeWindowRun_def)

text \<open>
  C4 says that the countdown submits exactly once, with "Time up", and never ticks again.
  \<^verbatim>\<open>addWarning\<close> and \<^verbatim>\<open>resetApp\<close> clear the interval before they end a quiz; a manual
  submit does not, and \<^verbatim>\<open>tick\<close> clears whatever \<^verbatim>\<open>state.timerInterval\<close> names at the
  time, not its own timer. In \<open>staleTimerRun\<close> both timers are live when the second quiz
  runs. When the first countdown ends, timer 1 clears timer 2 and submits the second quiz,
  whose own countdown would end at 1900000, with "Time up"; timer 1 stays live and submits
  again one second later.
\<close>

theorem stale_timer_submits_again:
  "intervals (run P (take 12 staleTimerRun) (loggedIn ''a@b.c'')) = [(1, 1801000), (2, 1900000)]
   \<and> activeScreens (run P (take 12 staleTimerRun) (loggedIn ''a@b.c'')) = [''quiz-screen'']
   \<and> reasons P (run P (take 12 staleTimerRun) (loggedIn ''a@b.c''))
       = [Some (JStr ''Manual submit'')]
   \<and> reasons P (run P (take 13 staleTimerRun) (loggedIn ''a@b.c''))
       = [Some (JStr ''Manual submit''), Some (JStr ''Time up'')]
   \<and> intervals (run P (take 13 staleTimerRun) (loggedIn ''a@b.c'')) = [(1, 1801000)]
   \<and> reasons P (run P staleTimerRun (loggedIn ''a@b.c''))
       = [Some (JStr ''Manual submit''), Some (JStr ''Time up''), Some (JStr ''Time up'')]
   \<and> intervals (run P staleTimerRun (loggedIn ''a@b.c'')) = [(1, 1801000)]
   \<and> startedAt (app (run P staleTimerRun (loggedIn ''a@b.c''))) = Some 100000"
  by (simp add: page_eval staleTimerRun_def)

end
